theory Spec2Isabelle
  imports Main
begin

section \<open>The ctfd package: data model\<close>

text \<open>
  The package drives three collaborators: the container runtime, the local file system and
  the HTTP platform inside the container. None of them is part of the package, so each call
  to one of them is an event appended to a trace, and its answer is read from an
  environment that may depend on everything that happened before (the trace so far). A
  theorem about every environment is a theorem about every behaviour of the collaborators.
\<close>

type_synonym url = string

text \<open>The handle of a container (\<^verbatim>\<open>docker.Container\<close>), identified by its ID.\<close>

type_synonym Container = string

text \<open>
  An error value produced outside the package. Go's type switch in \<^verbatim>\<open>waitForServer\<close> asks
  whether the value implements \<^verbatim>\<open>net.Error\<close>; that is the only thing the package ever asks
  of a foreign error, so it is the constructor.
\<close>

datatype exterr = NetError string | OtherError string

text \<open>
  The errors the package returns: a foreign error passed through unchanged, the sentinel
  \<^verbatim>\<open>ServerUnavailableErr\<close> (compared by identity in Go, hence a constructor of its own), an
  error made by \<^verbatim>\<open>fmt.Errorf\<close>, and the run-time panic of a method call on a nil interface.
\<close>

datatype goerr = External exterr | ServerUnavailableErr | Errorf string | NilPanic

text \<open>
  The part of an \<^verbatim>\<open>http.Response\<close> the package reads: the status code, and what
  \<^verbatim>\<open>ioutil.ReadAll(resp.Body)\<close> gives.
\<close>

record response =
  StatusCode :: nat
  Body :: "exterr + string"

text \<open>
  Modelled from the spec: \<^verbatim>\<open>exercise.FlagConfig\<close> is declared outside the files at hand; the
  package reads its fields Name, Default and Points (an unsigned integer, only ever printed).
\<close>

record FlagConfig =
  Name :: string
  Default :: string
  Points :: nat

record Config =
  Name :: string
  AdminUser :: string
  AdminEmail :: string
  AdminPass :: string
  Flags :: "FlagConfig list"

text \<open>
  \<^verbatim>\<open>docker.ContainerConfig\<close>, with the fields \<^verbatim>\<open>New\<close> sets. The two Go maps are association
  lists; each holds at most one entry here.
\<close>

record ContainerConfig =
  Image :: string
  Mounts :: "string list"
  EnvVars :: "(string \<times> string) list"
  PortBindings :: "(string \<times> string) list"
  UseBridge :: bool

text \<open>
  The body of a POST. \<^verbatim>\<open>url.Values.Encode\<close> writes the fields sorted by key; the multipart
  writer is fed from a Go map, whose iteration order is unspecified, so the order of the list
  of a multipart body carries no meaning (it is the order of the map literal).
\<close>

datatype form = UrlEncoded "(string \<times> string) list" | Multipart "(string \<times> string) list"

record request =
  Method :: string
  URL :: url
  ContentType :: string
  Form :: form

datatype event =
    CookiejarNew
  | GetDockerHostIP
  | TempDir string string
  | NewContainer ContainerConfig
  | ContStart Container
  | ContStop Container
  | ContClose Container
  | RemoveAll string
  | DefaultGet url
  | Sleep nat
  | ClientGet url
  | ClientDo request

text \<open>
  The environment: for each kind of call, the answer given the trace before the call.
  \<^verbatim>\<open>default_get\<close> (the \<^verbatim>\<open>http.Get\<close> of the readiness poll) also says how long the call took,
  in nanoseconds, as the poll is the one place where the package reads the clock.
\<close>

record env =
  cookiejar_New :: "event list \<Rightarrow> exterr option"
  get_docker_host_ip :: "event list \<Rightarrow> exterr + string"
  temp_dir :: "event list \<Rightarrow> string \<Rightarrow> string \<Rightarrow> exterr + string"
  new_container :: "event list \<Rightarrow> ContainerConfig \<Rightarrow> exterr + Container"
  cont_start :: "event list \<Rightarrow> Container \<Rightarrow> exterr option"
  cont_stop :: "event list \<Rightarrow> Container \<Rightarrow> exterr option"
  cont_close :: "event list \<Rightarrow> Container \<Rightarrow> exterr option"
  remove_all :: "event list \<Rightarrow> string \<Rightarrow> exterr option"
  default_get :: "event list \<Rightarrow> url \<Rightarrow> nat \<times> (exterr + response)"
  client_get :: "event list \<Rightarrow> url \<Rightarrow> exterr + response"
  client_do :: "event list \<Rightarrow> request \<Rightarrow> exterr + response"

text \<open>
  The struct \<^verbatim>\<open>ctfd\<close>. The cookie jar of \<^verbatim>\<open>httpclient\<close> lives in the environment (the answers
  to \<^verbatim>\<open>client_get\<close> and \<^verbatim>\<open>client_do\<close> depend on the trace); \<^verbatim>\<open>cont\<close> is a nil interface until
  \<^verbatim>\<open>New\<close> assigns it.
\<close>

record ctfd =
  conf :: Config
  cont :: "Container option"
  confDir :: string

text \<open>A computation: from the trace so far to a result or an error, and the trace after.\<close>

type_synonym 'a io = "event list \<Rightarrow> (goerr + 'a) \<times> event list"

definition andThen :: "'a io \<Rightarrow> ('a \<Rightarrow> 'b io) \<Rightarrow> 'b io" where
  "andThen m f = (\<lambda>tr. case m tr of
       (Inl e, tr') \<Rightarrow> (Inl e, tr')
     | (Inr x, tr') \<Rightarrow> f x tr')"

text \<open>A call that returns only an \<^verbatim>\<open>error\<close>: the event is logged, the answer read.\<close>

definition call_err :: "event \<Rightarrow> (event list \<Rightarrow> exterr option) \<Rightarrow> unit io" where
  "call_err ev ans = (\<lambda>tr. (case ans tr of None \<Rightarrow> Inr () | Some e \<Rightarrow> Inl (External e), tr @ [ev]))"

text \<open>A call that returns a value and an \<^verbatim>\<open>error\<close>.\<close>

definition call_val :: "event \<Rightarrow> (event list \<Rightarrow> exterr + 'a) \<Rightarrow> 'a io" where
  "call_val ev ans = (\<lambda>tr. (case ans tr of Inr x \<Rightarrow> Inr x | Inl e \<Rightarrow> Inl (External e), tr @ [ev]))"

section \<open>Container life cycle of an instance\<close>

text \<open>A method call on the container held by the instance; on a nil interface Go panics.\<close>

definition on_cont :: "ctfd \<Rightarrow> (Container \<Rightarrow> unit io) \<Rightarrow> unit io" where
  "on_cont ctf f = (case cont ctf of None \<Rightarrow> (\<lambda>tr. (Inl NilPanic, tr)) | Some c \<Rightarrow> f c)"

definition Start :: "env \<Rightarrow> ctfd \<Rightarrow> unit io" where
  "Start E ctf = on_cont ctf (\<lambda>c. call_err (ContStart c) (\<lambda>tr. cont_start E tr c))"

definition Stop :: "env \<Rightarrow> ctfd \<Rightarrow> unit io" where
  "Stop E ctf = on_cont ctf (\<lambda>c. call_err (ContStop c) (\<lambda>tr. cont_stop E tr c))"

definition Close :: "env \<Rightarrow> ctfd \<Rightarrow> unit io" where
  "Close E ctf =
     andThen (call_err (RemoveAll (confDir ctf)) (\<lambda>tr. remove_all E tr (confDir ctf)))
       (\<lambda>_. on_cont ctf (\<lambda>c. call_err (ContClose c) (\<lambda>tr. cont_close E tr c)))"

section \<open>The nonce pattern\<close>

text \<open>
  The regular expressions of the package are sequences of one-character classes, each taken
  once, any number of times or at least once, with one capturing group. \<^verbatim>\<open>.\<close> is any
  character but the newline (no \<^verbatim>\<open>s\<close> flag is set). Matching works on bytes: the bytes of
  a multi-byte UTF-8 character are never a newline or a double quote, so the byte spans are
  the spans Go finds on runes.
\<close>

datatype cclass = Lit char | OneOf "char list" | AnyCharNotNL

fun accepts :: "cclass \<Rightarrow> char \<Rightarrow> bool" where
  "accepts (Lit a) c = (c = a)"
| "accepts (OneOf as) c = (c \<in> set as)"
| "accepts AnyCharNotNL c = (c \<noteq> CHR 0x0A)"

datatype quant = One | Star | Plus

type_synonym item = "cclass \<times> quant"

record regexp =
  re_prefix :: "item list"
  re_group :: "item list"
  re_suffix :: "item list"

text \<open>
  Go's \<^verbatim>\<open>regexp\<close> returns the match a backtracking search finds first: a repetition takes
  as many characters as it can and gives them back one at a time while the rest of the
  pattern fails. The result lists the text each item has taken.
\<close>

fun match_items :: "item list \<Rightarrow> string \<Rightarrow> string list option" where
  "match_items [] s = Some []"
| "match_items ((p, One) # its) [] = None"
| "match_items ((p, One) # its) (c # cs) =
     (if accepts p c then map_option ((#) [c]) (match_items its cs) else None)"
| "match_items ((p, Star) # its) [] = map_option ((#) []) (match_items its [])"
| "match_items ((p, Star) # its) (c # cs) =
     (case (if accepts p c then match_items ((p, Star) # its) cs else None) of
        Some (w # ws) \<Rightarrow> Some ((c # w) # ws)
      | _ \<Rightarrow> map_option ((#) []) (match_items its (c # cs)))"
| "match_items ((p, Plus) # its) [] = None"
| "match_items ((p, Plus) # its) (c # cs) =
     (if accepts p c
      then (case match_items ((p, Star) # its) cs of
              Some (w # ws) \<Rightarrow> Some ((c # w) # ws)
            | _ \<Rightarrow> None)
      else None)"

text \<open>The leftmost position at which the pattern matches, and the match there.\<close>

fun find_leftmost :: "item list \<Rightarrow> string \<Rightarrow> (nat \<times> string list) option" where
  "find_leftmost its [] = map_option (Pair 0) (match_items its [])"
| "find_leftmost its (c # cs) =
     (case match_items its (c # cs) of
        Some ws \<Rightarrow> Some (0, ws)
      | None \<Rightarrow> map_option (apfst Suc) (find_leftmost its cs))"

text \<open>
  \<^verbatim>\<open>re.FindAllSubmatch(content, 1)\<close>: at most one match, given as the whole match followed
  by the text of the group.
\<close>

definition re_items :: "regexp \<Rightarrow> item list" where
  "re_items re = re_prefix re @ re_group re @ re_suffix re"

definition FindAllSubmatch :: "regexp \<Rightarrow> string \<Rightarrow> string list list" where
  "FindAllSubmatch re content =
     (case find_leftmost (re_items re) content of
        None \<Rightarrow> []
      | Some (i, ws) \<Rightarrow>
          [[concat ws, concat (take (length (re_group re)) (drop (length (re_prefix re)) ws))]])"

definition lits :: "string \<Rightarrow> item list" where
  "lits s = map (\<lambda>c. (Lit c, One)) s"

definition dquote :: char where
  "dquote = CHR 0x22"

text \<open>\<^verbatim>\<open>csrf_nonce[ ]*=[ ]*"(.+)"\<close>\<close>

definition NONCEREGEXP :: regexp where
  "NONCEREGEXP = \<lparr>
     re_prefix = lits ''csrf_nonce'' @
       [(OneOf '' '', Star), (Lit CHR ''='', One), (OneOf '' '', Star), (Lit dquote, One)],
     re_group = [(AnyCharNotNL, Plus)],
     re_suffix = [(Lit dquote, One)] \<rparr>"

text \<open>
  The pattern as the specification words it, \<^verbatim>\<open>csrf_nonce\s*=\s*"(.+)"\<close>, where \<^verbatim>\<open>\s\<close> is
  tab, newline, form feed, carriage return or space.
\<close>

definition spec_whitespace :: "char list" where
  "spec_whitespace = [CHR 0x09, CHR 0x0A, CHR 0x0C, CHR 0x0D, CHR '' '']"

definition spec_NONCEREGEXP :: regexp where
  "spec_NONCEREGEXP = \<lparr>
     re_prefix = lits ''csrf_nonce'' @
       [(OneOf spec_whitespace, Star), (Lit CHR ''='', One), (OneOf spec_whitespace, Star),
        (Lit dquote, One)],
     re_group = [(AnyCharNotNL, Plus)],
     re_suffix = [(Lit dquote, One)] \<rparr>"

text \<open>
  What it is for a text to match a sequence of items, said without an algorithm: the text
  splits into one piece per item, each piece made of characters of the item's class and of a
  length the item allows.
\<close>

fun piece_ok :: "item \<Rightarrow> string \<Rightarrow> bool" where
  "piece_ok (p, One) w = (length w = 1 \<and> list_all (accepts p) w)"
| "piece_ok (p, Star) w = list_all (accepts p) w"
| "piece_ok (p, Plus) w = (w \<noteq> [] \<and> list_all (accepts p) w)"

definition conforms :: "item list \<Rightarrow> string list \<Rightarrow> bool" where
  "conforms its ws = list_all2 piece_ok its ws"

text \<open>
  An occurrence of the nonce assignment in a page: \<^verbatim>\<open>csrf_nonce\<close>, blanks, \<^verbatim>\<open>=\<close>, blanks,
  and a quoted non-empty value free of newlines. The blanks are drawn from \<open>blanks\<close>.
\<close>

definition nonce_occurrence ::
  "char list \<Rightarrow> string \<Rightarrow> string \<Rightarrow> string \<Rightarrow> string \<Rightarrow> string \<Rightarrow> string \<Rightarrow> bool" where
  "nonce_occurrence blanks content pre sp1 sp2 v post =
     (content = pre @ ''csrf_nonce'' @ sp1 @ ''='' @ sp2 @ [dquote] @ v @ [dquote] @ post
      \<and> list_all (\<lambda>c. c \<in> set blanks) sp1 \<and> list_all (\<lambda>c. c \<in> set blanks) sp2
      \<and> v \<noteq> [] \<and> list_all (\<lambda>c. c \<noteq> CHR 0x0A) v)"

section \<open>The session client\<close>

definition getNonce :: "env \<Rightarrow> url \<Rightarrow> string io" where
  "getNonce E path =
     andThen (call_val (ClientGet path) (\<lambda>tr. client_get E tr path)) (\<lambda>resp tr.
       case Body resp of
         Inl e \<Rightarrow> (Inl (External e), tr)
       | Inr content \<Rightarrow>
           (let matches = FindAllSubmatch NONCEREGEXP content in
            if length matches = 0 then (Inl (Errorf ''Unable to find nonce in page''), tr)
            else (Inr (matches ! 0 ! 1), tr)))"

text \<open>\<^verbatim>\<open>fmt.Sprintf("%d", n)\<close> for an unsigned number.\<close>

fun fmt_d :: "nat \<Rightarrow> string" where
  "fmt_d n = (if n < 10 then [''0123456789'' ! n]
              else fmt_d (n div 10) @ [''0123456789'' ! (n mod 10)])"

declare fmt_d.simps [simp del]

definition chal_endpoint :: url where
  "chal_endpoint = ''http://localhost:8000'' @ ''/admin/chal/new''"

text \<open>
  The request \<^verbatim>\<open>createFlag\<close> builds. Writing the fields into a \<^verbatim>\<open>bytes.Buffer\<close> and building
  a request for a constant method and URL cannot fail, so those error branches have no
  counterpart; the random boundary of the content type is left out.
\<close>

definition chal_request :: "string \<Rightarrow> string \<Rightarrow> nat \<Rightarrow> string \<Rightarrow> request" where
  "chal_request name flag points nonce = \<lparr>
     Method = ''POST'', URL = chal_endpoint, ContentType = ''multipart/form-data'',
     Form = Multipart [
       (''name'', name),
       (''value'', fmt_d points),
       (''key'', flag),
       (''nonce'', nonce),
       (''key_type[0]'', ''static''),
       (''category'', []),
       (''description'', []),
       (''max_attempts'', []),
       (''chaltype'', ''standard'')] \<rparr>"

definition createFlag :: "env \<Rightarrow> string \<Rightarrow> string \<Rightarrow> nat \<Rightarrow> unit io" where
  "createFlag E name flag points =
     andThen (getNonce E chal_endpoint) (\<lambda>nonce.
       andThen (call_val (ClientDo (chal_request name flag points nonce))
                  (\<lambda>tr. client_do E tr (chal_request name flag points nonce)))
         (\<lambda>resp tr. (Inr (), tr)))"

section \<open>The readiness poll\<close>

text \<open>Durations in nanoseconds, as \<^verbatim>\<open>time.Duration\<close>.\<close>

definition Second :: nat where
  "Second = 1000000000"

definition Minute :: nat where
  "Minute = 60 * Second"

text \<open>The closure \<^verbatim>\<open>poll\<close>, given what \<^verbatim>\<open>http.Get\<close> answered; \<open>None\<close> is the nil error.\<close>

definition poll :: "exterr + response \<Rightarrow> goerr option" where
  "poll ans = (case ans of
       Inl e \<Rightarrow> Some (External e)
     | Inr resp \<Rightarrow>
         if StatusCode resp \<noteq> 200
         then Some (Errorf (''Unxpected status code: '' @ fmt_d (StatusCode resp)))
         else None)"

text \<open>The type switch \<^verbatim>\<open>case net.Error\<close>; nil and every other error take the default branch.\<close>

fun is_net_Error :: "goerr option \<Rightarrow> bool" where
  "is_net_Error (Some (External (NetError m))) = True"
| "is_net_Error _ = False"

text \<open>
  The loop of the goroutine. \<open>elapsed\<close> is the time since the context was made; its
  \<^verbatim>\<open>Done\<close> channel is ready once a minute has passed, and it is looked at only at the head of
  the loop. The goroutine sends one value into a channel of capacity one and the caller
  waits for that value and nothing else, so the value sent is the value returned.
\<close>

function poll_loop :: "env \<Rightarrow> url \<Rightarrow> nat \<Rightarrow> event list \<Rightarrow> goerr option \<times> event list" where
  "poll_loop E path elapsed tr =
     (if Minute \<le> elapsed then (Some ServerUnavailableErr, tr)
      else if is_net_Error (poll (snd (default_get E tr path)))
      then poll_loop E path (elapsed + fst (default_get E tr path) + Second)
             (tr @ [DefaultGet path, Sleep Second])
      else (poll (snd (default_get E tr path)), tr @ [DefaultGet path]))"
  by pat_completeness auto
termination
  by (relation "measure (\<lambda>(E, path, elapsed, tr). Minute - elapsed)")
     (auto simp: Second_def Minute_def)

declare poll_loop.simps [simp del]

definition waitForServer :: "env \<Rightarrow> url \<Rightarrow> unit io" where
  "waitForServer E path = (\<lambda>tr. case poll_loop E path 0 tr of
       (None, tr') \<Rightarrow> (Inr (), tr')
     | (Some e, tr') \<Rightarrow> (Inl e, tr'))"

section \<open>Configuration and construction\<close>

definition setup_endpoint :: url where
  "setup_endpoint = ''http://localhost:8000/setup''"

definition setup_request :: "Config \<Rightarrow> string \<Rightarrow> request" where
  "setup_request c nonce = \<lparr>
     Method = ''POST'', URL = setup_endpoint,
     ContentType = ''application/x-www-form-urlencoded'',
     Form = UrlEncoded [
       (''ctf_name'', Config.Name c),
       (''email'', AdminEmail c),
       (''name'', AdminUser c),
       (''nonce'', nonce),
       (''password'', AdminPass c)] \<rparr>"

text \<open>The loop over \<^verbatim>\<open>ctf.conf.Flags\<close>; the debug log line leaves no trace here.\<close>

fun createFlags :: "env \<Rightarrow> FlagConfig list \<Rightarrow> unit io" where
  "createFlags E [] tr = (Inr (), tr)"
| "createFlags E (flag # flags) tr =
     (case createFlag E (FlagConfig.Name flag) (Default flag) (Points flag) tr of
        (Inl err, tr') \<Rightarrow> (Inl err, tr')
      | (Inr _, tr') \<Rightarrow> createFlags E flags tr')"

definition configureInstance :: "env \<Rightarrow> ctfd \<Rightarrow> unit io" where
  "configureInstance E ctf =
     andThen (waitForServer E setup_endpoint) (\<lambda>_.
     andThen (getNonce E setup_endpoint) (\<lambda>nonce.
     andThen (call_val (ClientDo (setup_request (conf ctf) nonce))
                (\<lambda>tr. client_do E tr (setup_request (conf ctf) nonce))) (\<lambda>resp.
     createFlags E (Flags (conf ctf)))))"

definition baseConf :: "string \<Rightarrow> string \<Rightarrow> ContainerConfig" where
  "baseConf hostIp dir = \<lparr>
     Image = ''registry.sec-aau.dk/aau/ctfd'',
     Mounts = [dir @ ''/:/opt/CTFd/CTFd/data''],
     EnvVars = [(''ADMIN_HOST'', hostIp)],
     PortBindings = [],
     UseBridge = True \<rparr>"

definition initConf :: "string \<Rightarrow> string \<Rightarrow> ContainerConfig" where
  "initConf hostIp dir = (baseConf hostIp dir) \<lparr> PortBindings := [(''8000/tcp'', ''127.0.0.1:8000'')] \<rparr>"

definition New :: "env \<Rightarrow> Config \<Rightarrow> ctfd io" where
  "New E cfg =
     andThen (call_err CookiejarNew (cookiejar_New E)) (\<lambda>_.
     andThen (call_val GetDockerHostIP (get_docker_host_ip E)) (\<lambda>hostIp.
     andThen (call_val (TempDir [] ''ctfd'') (\<lambda>tr. temp_dir E tr [] ''ctfd'')) (\<lambda>dir.
     andThen (call_val (NewContainer (initConf hostIp dir))
                (\<lambda>tr. new_container E tr (initConf hostIp dir))) (\<lambda>c.
     andThen (call_err (ContStart c) (\<lambda>tr. cont_start E tr c)) (\<lambda>_.
     andThen (configureInstance E \<lparr> conf = cfg, cont = None, confDir = dir \<rparr>) (\<lambda>_.
     andThen (call_err (ContClose c) (\<lambda>tr. cont_close E tr c)) (\<lambda>_.
     andThen (call_val (NewContainer (baseConf hostIp dir))
                (\<lambda>tr. new_container E tr (baseConf hostIp dir))) (\<lambda>c'.
     (\<lambda>tr. (Inr \<lparr> conf = cfg, cont = Some c', confDir = dir \<rparr>, tr))))))))))"

section \<open>Vocabulary for the statements\<close>

text \<open>
  While every probe ends in a transport failure the poll alternates a probe and a sleep of one
  second. \<open>probe_trace path n\<close> is the trace of \<open>n\<close> such rounds, \<open>probe E path tr i\<close> the
  answer (duration and outcome) to the probe of round \<open>i\<close> when the poll started after \<open>tr\<close>,
  and \<open>elapsed_at E path tr n\<close> the time on the clock at the head of round \<open>n\<close>: the time the
  earlier probes took plus one second of sleep after each.
\<close>

definition probe_trace :: "url \<Rightarrow> nat \<Rightarrow> event list" where
  "probe_trace path n = concat (replicate n [DefaultGet path, Sleep Second])"

definition probe :: "env \<Rightarrow> url \<Rightarrow> event list \<Rightarrow> nat \<Rightarrow> nat \<times> (exterr + response)" where
  "probe E path tr i = default_get E (tr @ probe_trace path i) path"

fun elapsed_at :: "env \<Rightarrow> url \<Rightarrow> event list \<Rightarrow> nat \<Rightarrow> nat" where
  "elapsed_at E path tr 0 = 0"
| "elapsed_at E path tr (Suc n) = elapsed_at E path tr n + fst (probe E path tr n) + Second"

text \<open>A probe whose outcome sends the loop round again.\<close>

definition transient :: "env \<Rightarrow> url \<Rightarrow> event list \<Rightarrow> nat \<Rightarrow> bool" where
  "transient E path tr i = is_net_Error (poll (snd (probe E path tr i)))"

text \<open>A 2xx status, as the specification words success.\<close>

definition is_2xx :: "nat \<Rightarrow> bool" where
  "is_2xx code = (200 \<le> code \<and> code < 300)"

text \<open>
  The order the specification asks of a teardown: no removal of a directory before the first
  stop or close of a container.
\<close>

fun removal_after_stop :: "event list \<Rightarrow> bool" where
  "removal_after_stop [] = True"
| "removal_after_stop (RemoveAll p # tr) = False"
| "removal_after_stop (ContStop c # tr) = True"
| "removal_after_stop (ContClose c # tr) = True"
| "removal_after_stop (ev # tr) = removal_after_stop tr"

text \<open>The events of \<open>n\<close> flags seeded without error, given the nonce each submission carried.\<close>

fun seeded_events :: "FlagConfig list \<Rightarrow> string list \<Rightarrow> event list" where
  "seeded_events (flag # flags) (nonce # nonces) =
     [ClientGet chal_endpoint,
      ClientDo (chal_request (FlagConfig.Name flag) (Default flag) (Points flag) nonce)]
     @ seeded_events flags nonces"
| "seeded_events _ _ = []"

text \<open>
  A run of the loop over \<open>flags\<close> from the trace \<open>tr\<close> in which nothing fails: for each flag
  in turn the fetch of the challenge page gives the nonce listed for it, the submission that
  carries this nonce is answered (with whatever status), and the rest goes on from the trace
  extended by these two calls.
\<close>

fun seeded_ok :: "env \<Rightarrow> event list \<Rightarrow> FlagConfig list \<Rightarrow> string list \<Rightarrow> bool" where
  "seeded_ok E tr [] [] = True"
| "seeded_ok E tr (flag # flags) (nonce # nonces) =
     (getNonce E chal_endpoint tr = (Inr nonce, tr @ [ClientGet chal_endpoint])
      \<and> (case client_do E (tr @ [ClientGet chal_endpoint])
                 (chal_request (FlagConfig.Name flag) (Default flag) (Points flag) nonce) of
            Inl e \<Rightarrow> False
          | Inr resp \<Rightarrow> True)
      \<and> seeded_ok E
            (tr @ [ClientGet chal_endpoint,
                   ClientDo (chal_request (FlagConfig.Name flag) (Default flag) (Points flag) nonce)])
            flags nonces)"
| "seeded_ok E tr _ _ = False"

text \<open>The challenge-creation submissions in a trace.\<close>

fun submissions :: "event list \<Rightarrow> request list" where
  "submissions [] = []"
| "submissions (ClientDo r # tr) = (if URL r = chal_endpoint then r # submissions tr else submissions tr)"
| "submissions (ev # tr) = submissions tr"

fun is_cleanup :: "event \<Rightarrow> bool" where
  "is_cleanup (RemoveAll p) = True"
| "is_cleanup (ContStop c) = True"
| "is_cleanup (ContClose c) = True"
| "is_cleanup _ = False"

fun is_http :: "event \<Rightarrow> bool" where
  "is_http (DefaultGet u) = True"
| "is_http (ClientGet u) = True"
| "is_http (ClientDo r) = True"
| "is_http _ = False"

section \<open>Concrete environments\<close>

text \<open>An environment in which every collaborator succeeds.\<close>

definition page :: string where
  "page = ''<script>var csrf_nonce = '' @ [dquote] @ ''abc123'' @ [dquote] @ '';</script>''"

definition env_ok :: env where
  "env_ok = \<lparr> cookiejar_New = (\<lambda>tr. None),
     get_docker_host_ip = (\<lambda>tr. Inr ''172.17.0.1''),
     temp_dir = (\<lambda>tr d p. Inr ''/tmp/ctfd042''),
     new_container = (\<lambda>tr c. Inr (if PortBindings c = [] then ''serving'' else ''setup'')),
     cont_start = (\<lambda>tr c. None),
     cont_stop = (\<lambda>tr c. None),
     cont_close = (\<lambda>tr c. None),
     remove_all = (\<lambda>tr p. None),
     default_get = (\<lambda>tr u. (0, Inr \<lparr>StatusCode = 200, Body = Inr page\<rparr>)),
     client_get = (\<lambda>tr u. Inr \<lparr>StatusCode = 200, Body = Inr page\<rparr>),
     client_do = (\<lambda>tr r. Inr \<lparr>StatusCode = 200, Body = Inr []\<rparr>) \<rparr>"

definition cfg_demo :: Config where
  "cfg_demo = \<lparr> Name = ''demo'', AdminUser = ''admin'', AdminEmail = ''a@example.org'',
     AdminPass = ''secret'',
     Flags = [\<lparr> FlagConfig.Name = ''A'', Default = ''flag{a}'', Points = 100 \<rparr>,
              \<lparr> FlagConfig.Name = ''B'', Default = ''flag{b}'', Points = 200 \<rparr>] \<rparr>"

definition ctf_demo :: ctfd where
  "ctf_demo = \<lparr> conf = cfg_demo, cont = Some ''serving'', confDir = ''/tmp/ctfd042'' \<rparr>"

text \<open>The file system refuses to remove the data directory.\<close>

definition env_rm_fails :: env where
  "env_rm_fails = env_ok \<lparr> remove_all := (\<lambda>tr p. Some (OtherError ''permission denied'')) \<rparr>"

text \<open>The platform answers every submission with 403 Forbidden.\<close>

definition env_403 :: env where
  "env_403 = env_ok \<lparr> client_do := (\<lambda>tr r. Inr \<lparr>StatusCode = 403, Body = Inr ''forbidden''\<rparr>) \<rparr>"

text \<open>The platform answers the readiness probe with 204 No Content.\<close>

definition env_204 :: env where
  "env_204 = env_ok \<lparr> default_get := (\<lambda>tr u. (0, Inr \<lparr>StatusCode = 204, Body = Inr []\<rparr>)) \<rparr>"



text \<open>
  The first three readiness probes are refused after half a second each; the fourth is
  answered with 200.
\<close>

definition env_retry :: env where
  "env_retry = env_ok \<lparr> default_get := (\<lambda>tr u.
     if length tr < 6 then (Second div 2, Inl (NetError ''connection refused''))
     else (0, Inr \<lparr>StatusCode = 200, Body = Inr page\<rparr>)) \<rparr>"

text \<open>The platform answers the readiness probe with 500 Internal Server Error.\<close>

definition env_500 :: env where
  "env_500 = env_ok \<lparr> default_get := (\<lambda>tr u. (0, Inr \<lparr>StatusCode = 500, Body = Inr []\<rparr>)) \<rparr>"

text \<open>The page has a tab between \<^verbatim>\<open>csrf_nonce\<close> and the equals sign.\<close>

definition page_tab :: string where
  "page_tab = ''csrf_nonce'' @ [CHR 0x09] @ ''= '' @ [dquote] @ ''abc'' @ [dquote]"

definition env_tab :: env where
  "env_tab = env_ok \<lparr> client_get := (\<lambda>tr u. Inr \<lparr>StatusCode = 200, Body = Inr page_tab\<rparr>) \<rparr>"

text \<open>The page has no nonce at all.\<close>

definition env_no_nonce :: env where
  "env_no_nonce = env_ok \<lparr> client_get := (\<lambda>tr u. Inr \<lparr>StatusCode = 200, Body = Inr ''<html></html>''\<rparr>) \<rparr>"

text \<open>The image of the setup container is missing: the container cannot be started.\<close>

definition env_start_fails :: env where
  "env_start_fails = env_ok \<lparr> cont_start := (\<lambda>tr c. Some (OtherError ''No such image'')) \<rparr>"

text \<open>The second submission of a challenge is cut off by the network.\<close>

definition env_second_post_fails :: env where
  "env_second_post_fails = env_ok \<lparr> client_do := (\<lambda>tr r.
     if length (submissions tr) = 1 then Inl (NetError ''connection reset'')
     else Inr \<lparr>StatusCode = 200, Body = Inr []\<rparr>) \<rparr>"

text \<open>Three flags, for runs that stop in the middle.\<close>

definition flags_three :: "FlagConfig list" where
  "flags_three = Flags cfg_demo @ [\<lparr> FlagConfig.Name = ''C'', Default = ''flag{c}'', Points = 300 \<rparr>]"

text \<open>The calls of a construction in which everything succeeds.\<close>

definition trace_demo :: "event list" where
  "trace_demo =
     [CookiejarNew, GetDockerHostIP, TempDir [] ''ctfd'',
      NewContainer (initConf ''172.17.0.1'' ''/tmp/ctfd042''), ContStart ''setup'',
      DefaultGet setup_endpoint, ClientGet setup_endpoint,
      ClientDo (setup_request cfg_demo ''abc123''),
      ClientGet chal_endpoint, ClientDo (chal_request ''A'' ''flag{a}'' 100 ''abc123''),
      ClientGet chal_endpoint, ClientDo (chal_request ''B'' ''flag{b}'' 200 ''abc123''),
      ContClose ''setup'', NewContainer (baseConf ''172.17.0.1'' ''/tmp/ctfd042'')]"

section \<open>The matcher finds exactly the matches\<close>

lemma match_items_length: "match_items its s = Some ws \<Longrightarrow> length ws = length its"
  by (induction its s arbitrary: ws rule: match_items.induct)
     (auto split: if_splits option.splits list.splits)

lemma match_items_sound:
  "match_items its s = Some ws \<Longrightarrow> conforms its ws \<and> (\<exists>rest. s = concat ws @ rest)"
  unfolding conforms_def
  by (induction its s arbitrary: ws rule: match_items.induct)
     (auto split: if_splits option.splits list.splits)

lemma match_items_complete:
  "conforms its ws \<Longrightarrow> s = concat ws @ rest \<Longrightarrow> match_items its s \<noteq> None"
  unfolding conforms_def
proof (induction its s arbitrary: ws rule: match_items.induct)
  case (5 p its c cs)
  then obtain w ws' where ws: "ws = w # ws'" and w: "list_all (accepts p) w"
    and r: "list_all2 piece_ok its ws'"
    by (auto simp: list_all2_Cons1)
  show ?case
  proof (cases w)
    case Nil
    with "5.prems" ws have s: "c # cs = concat ws' @ rest" by simp
    let ?r0 = "if accepts p c then match_items ((p, Star) # its) cs else None"
    show ?thesis
    proof (cases ?r0)
      case None
      from "5.IH"(2)[OF None r s] None show ?thesis by auto
    next
      case (Some r')
      show ?thesis
      proof (cases r')
        case Nil
        from "5.IH"(3)[OF Some Nil r s] Some Nil show ?thesis by auto
      next
        case (Cons x xs)
        with Some show ?thesis by simp
      qed
    qed
  next
    case (Cons a w')
    with 5 ws w have "a = c" "accepts p c" "cs = concat (w' # ws') @ rest" by auto
    moreover have "list_all2 piece_ok ((p, Star) # its) (w' # ws')" using r w Cons by simp
    ultimately have "match_items ((p, Star) # its) cs \<noteq> None" using "5.IH"(1) by blast
    then obtain r' where r': "match_items ((p, Star) # its) cs = Some r'" by auto
    from match_items_length[OF this] obtain x xs where "r' = x # xs" by (cases r') auto
    with r' \<open>accepts p c\<close> show ?thesis by simp
  qed
next
  case (7 p its c cs)
  then obtain w ws' where ws: "ws = w # ws'" and w: "list_all (accepts p) w" "w \<noteq> []"
    and r: "list_all2 piece_ok its ws'"
    by (auto simp: list_all2_Cons1)
  then obtain a w' where Cons: "w = a # w'" by (cases w) auto
  with 7 ws w have "a = c" "accepts p c" "cs = concat (w' # ws') @ rest" by auto
  moreover have "list_all2 piece_ok ((p, Star) # its) (w' # ws')" using r w Cons by simp
  ultimately have "match_items ((p, Star) # its) cs \<noteq> None" using "7.IH" by blast
  then obtain r' where r': "match_items ((p, Star) # its) cs = Some r'" by auto
  from match_items_length[OF this] obtain x xs where "r' = x # xs" by (cases r') auto
  with r' \<open>accepts p c\<close> show ?case by simp
qed (auto simp: list_all2_Cons1 length_Suc_conv)

lemma match_items_iff:
  "match_items its s \<noteq> None \<longleftrightarrow> (\<exists>ws rest. conforms its ws \<and> s = concat ws @ rest)"
  using match_items_sound match_items_complete by blast

lemma find_leftmost_None:
  "find_leftmost its s = None \<longleftrightarrow> (\<forall>i\<le>length s. match_items its (drop i s) = None)"
proof (induction s)
  case Nil
  show ?case by simp
next
  case (Cons c cs)
  show ?case
  proof (cases "match_items its (c # cs)")
    case None
    have "(\<forall>i\<le>length (c # cs). match_items its (drop i (c # cs)) = None)
          \<longleftrightarrow> (\<forall>i\<le>length cs. match_items its (drop i cs) = None)"
      (is "?L \<longleftrightarrow> ?R")
    proof
      assume l: ?L
      show ?R
      proof (intro allI impI)
        fix i assume "i \<le> length cs"
        with l have "match_items its (drop (Suc i) (c # cs)) = None" by (metis Suc_le_mono length_Cons)
        then show "match_items its (drop i cs) = None" by simp
      qed
    next
      assume r: ?R
      show ?L
      proof (intro allI impI)
        fix i assume "i \<le> length (c # cs)"
        then show "match_items its (drop i (c # cs)) = None"
          using r None by (cases i) auto
      qed
    qed
    with None Cons show ?thesis by simp
  next
    case (Some ws)
    then have "\<not> (\<forall>i\<le>length (c # cs). match_items its (drop i (c # cs)) = None)"
      by (metis drop0 le0 option.distinct(1))
    with Some show ?thesis by simp
  qed
qed

lemma find_leftmost_Some:
  "find_leftmost its s = Some (i, ws) \<Longrightarrow>
     i \<le> length s \<and> match_items its (drop i s) = Some ws
     \<and> (\<forall>j<i. match_items its (drop j s) = None)"
proof (induction s arbitrary: i)
  case Nil
  then show ?case by auto
next
  case (Cons c cs)
  show ?case
  proof (cases "match_items its (c # cs)")
    case None
    with Cons.prems obtain i' where i': "find_leftmost its cs = Some (i', ws)" "i = Suc i'"
      by (auto simp: apfst_def map_prod_def split: prod.splits)
    from Cons.IH[OF i'(1)] have ih: "i' \<le> length cs" "match_items its (drop i' cs) = Some ws"
      "\<forall>j<i'. match_items its (drop j cs) = None" by auto
    have "\<forall>j<i. match_items its (drop j (c # cs)) = None"
    proof (intro allI impI)
      fix j assume "j < i"
      then show "match_items its (drop j (c # cs)) = None"
        using None ih(3) i'(2) by (cases j) auto
    qed
    with ih i' show ?thesis by simp
  next
    case (Some a)
    with Cons.prems show ?thesis by auto
  qed
qed


subsection \<open>The first match is the greedy one\<close>

lemma match_Star_nonempty:
  "match_items ((p, Star) # its) s = Some r \<Longrightarrow> \<exists>x xs. r = x # xs"
  using match_items_length[of "(p, Star) # its" s r] by (cases r) auto

lemma match_items_tail_Star:
  "match_items ((p, Star) # its) s = Some (w # ws) \<Longrightarrow>
     match_items its (drop (length w) s) = Some ws"
proof (induction s arbitrary: w ws)
  case Nil
  then show ?case by auto
next
  case (Cons c cs)
  let ?r0 = "if accepts p c then match_items ((p, Star) # its) cs else None"
  show ?case
  proof (cases ?r0)
    case None
    with Cons.prems show ?thesis by auto
  next
    case (Some r')
    then have ac: "accepts p c" and r': "match_items ((p, Star) # its) cs = Some r'"
      by (auto split: if_splits)
    from match_Star_nonempty[OF r'] obtain x xs where x: "r' = x # xs" by auto
    with Some Cons.prems have "w = c # x" "ws = xs" by auto
    with Cons.IH[of x xs] r' x show ?thesis by simp
  qed
qed

lemma match_items_tail:
  assumes "match_items (it # its) s = Some (w # ws)"
  shows "match_items its (drop (length w) s) = Some ws"
proof -
  obtain p q where it: "it = (p, q)" by (cases it)
  show ?thesis
  proof (cases q)
    case One
    with assms it show ?thesis by (cases s) (auto split: if_splits)
  next
    case Star
    with assms it show ?thesis using match_items_tail_Star by simp
  next
    case Plus
    show ?thesis
    proof (cases s)
      case Nil
      with assms it Plus show ?thesis by simp
    next
      case (Cons c cs)
      with assms it Plus obtain x where "match_items ((p, Star) # its) cs = Some (x # ws)" "w = c # x"
        by (auto split: if_splits option.splits list.splits)
      with match_items_tail_Star[OF this(1)] Cons show ?thesis by simp
    qed
  qed
qed

lemma match_items_split:
  "match_items (its1 @ its2) s = Some ws \<Longrightarrow>
     match_items its2 (drop (length (concat (take (length its1) ws))) s) = Some (drop (length its1) ws)"
proof (induction its1 arbitrary: s ws)
  case Nil
  then show ?case by simp
next
  case (Cons it its1)
  from match_items_length[OF Cons.prems] obtain w ws' where ws: "ws = w # ws'"
    by (cases ws) auto
  with Cons.prems have "match_items (its1 @ its2) (drop (length w) s) = Some ws'"
    using match_items_tail by simp
  from Cons.IH[OF this] ws show ?case by (simp add: add.commute)
qed

lemma match_items_greedy_Star:
  "match_items ((p, Star) # its) s = Some (w # ws) \<Longrightarrow> conforms ((p, Star) # its) (w' # ws') \<Longrightarrow>
     s = concat (w' # ws') @ rest \<Longrightarrow> length w' \<le> length w"
proof (induction s arbitrary: w ws w')
  case Nil
  then show ?case by auto
next
  case (Cons c cs)
  show ?case
  proof (cases w')
    case Nil
    then show ?thesis by simp
  next
    case (Cons a w'')
    with Cons.prems have ac: "a = c" "accepts p c" and cs: "cs = concat (w'' # ws') @ rest"
      and cf: "conforms ((p, Star) # its) (w'' # ws')"
      by (auto simp: conforms_def)
    from match_items_complete[OF cf cs] obtain r' where r': "match_items ((p, Star) # its) cs = Some r'"
      by auto
    from match_Star_nonempty[OF this] obtain x xs where x: "r' = x # xs" by auto
    with r' ac Cons.prems(1) have "w = c # x" by simp
    moreover from Cons.IH[OF _ cf cs] r' x have "length w'' \<le> length x" by simp
    ultimately show ?thesis using Cons by simp
  qed
qed

lemma match_items_greedy_Plus:
  assumes "match_items ((p, Plus) # its) s = Some (w # ws)"
    and "conforms ((p, Plus) # its) (w' # ws')" and "s = concat (w' # ws') @ rest"
  shows "length w' \<le> length w"
proof -
  from assms(2) obtain a w'' where w': "w' = a # w''" by (cases w') (auto simp: conforms_def)
  with assms(3) obtain cs where s: "s = a # cs" and cs: "cs = concat (w'' # ws') @ rest" by simp
  from assms(2) w' have cf: "conforms ((p, Star) # its) (w'' # ws')" and ac: "accepts p a"
    by (auto simp: conforms_def)
  from assms(1) s ac obtain x where x: "match_items ((p, Star) # its) cs = Some (x # ws)" "w = a # x"
    by (auto split: option.splits list.splits)
  from match_items_greedy_Star[OF x(1) cf cs] x(2) w' show ?thesis by simp
qed

subsection \<open>Occurrences of the nonce pattern\<close>

lemma piece_Lit_One: "piece_ok (Lit a, One) w \<longleftrightarrow> w = [a]"
  by (cases w) auto

lemma accepts_OneOf: "accepts (OneOf bs) = (\<lambda>c. c \<in> set bs)"
  by (rule ext) simp

lemma accepts_Any: "accepts AnyCharNotNL = (\<lambda>c. c \<noteq> CHR 0x0A)"
  by (rule ext) simp

lemma conforms_NONCEREGEXP:
  "conforms (re_items NONCEREGEXP) ws \<longleftrightarrow>
     (\<exists>sp1 sp2 v. ws = [''c'', ''s'', ''r'', ''f'', ''_'', ''n'', ''o'', ''n'', ''c'', ''e'',
                        sp1, ''='', sp2, [dquote], v, [dquote]]
        \<and> list_all (\<lambda>c. c \<in> set '' '') sp1 \<and> list_all (\<lambda>c. c \<in> set '' '') sp2
        \<and> v \<noteq> [] \<and> list_all (\<lambda>c. c \<noteq> CHR 0x0A) v)"
  by (auto simp: conforms_def re_items_def NONCEREGEXP_def lits_def list_all2_Cons1
        piece_Lit_One accepts_OneOf accepts_Any simp del: piece_ok.simps(1))

lemma blank_run_unique:
  "list_all P a \<Longrightarrow> list_all P a' \<Longrightarrow> \<not> P x \<Longrightarrow> \<not> P x' \<Longrightarrow> a @ x # r = a' @ x' # r' \<Longrightarrow>
     a = a' \<and> r = r'"
proof (induction a arbitrary: a')
  case Nil
  then show ?case by (cases a') auto
next
  case (Cons c a)
  then show ?case by (cases a') auto
qed


lemma match_at_iff:
  "match_items (re_items NONCEREGEXP) t \<noteq> None \<longleftrightarrow>
     (\<exists>sp1 sp2 v post. nonce_occurrence '' '' t [] sp1 sp2 v post)"
proof
  assume "match_items (re_items NONCEREGEXP) t \<noteq> None"
  then obtain ws rest where "conforms (re_items NONCEREGEXP) ws" and t: "t = concat ws @ rest"
    using match_items_iff by blast
  then obtain sp1 sp2 v where "ws = [''c'', ''s'', ''r'', ''f'', ''_'', ''n'', ''o'', ''n'', ''c'', ''e'',
                        sp1, ''='', sp2, [dquote], v, [dquote]]"
    and "list_all (\<lambda>c. c \<in> set '' '') sp1" "list_all (\<lambda>c. c \<in> set '' '') sp2"
    and "v \<noteq> []" "list_all (\<lambda>c. c \<noteq> CHR 0x0A) v"
    unfolding conforms_NONCEREGEXP by blast
  with t have "nonce_occurrence '' '' t [] sp1 sp2 v rest"
    by (simp add: nonce_occurrence_def)
  then show "\<exists>sp1 sp2 v post. nonce_occurrence '' '' t [] sp1 sp2 v post" by blast
next
  assume "\<exists>sp1 sp2 v post. nonce_occurrence '' '' t [] sp1 sp2 v post"
  then obtain sp1 sp2 v post where o: "nonce_occurrence '' '' t [] sp1 sp2 v post" by blast
  let ?ws = "[''c'', ''s'', ''r'', ''f'', ''_'', ''n'', ''o'', ''n'', ''c'', ''e'',
              sp1, ''='', sp2, [dquote], v, [dquote]]"
  have "conforms (re_items NONCEREGEXP) ?ws"
    unfolding conforms_NONCEREGEXP using o by (simp add: nonce_occurrence_def)
  moreover have "t = concat ?ws @ post" using o by (simp add: nonce_occurrence_def)
  ultimately show "match_items (re_items NONCEREGEXP) t \<noteq> None"
    by (rule match_items_complete)
qed

lemma append_eq_take_drop:
  "content = pre @ x \<longleftrightarrow>
     length pre \<le> length content \<and> take (length pre) content = pre \<and> drop (length pre) content = x"
proof
  assume "content = pre @ x"
  then show "length pre \<le> length content \<and> take (length pre) content = pre
     \<and> drop (length pre) content = x" by simp
next
  assume "length pre \<le> length content \<and> take (length pre) content = pre
     \<and> drop (length pre) content = x"
  then have "take (length pre) content @ drop (length pre) content = pre @ x" by simp
  then show "content = pre @ x" by simp
qed

lemma occurrence_drop:
  "nonce_occurrence bl content pre sp1 sp2 v post \<longleftrightarrow>
     length pre \<le> length content \<and> take (length pre) content = pre
     \<and> nonce_occurrence bl (drop (length pre) content) [] sp1 sp2 v post"
  using append_eq_take_drop[of content pre
      "''csrf_nonce'' @ sp1 @ ''='' @ sp2 @ [dquote] @ v @ [dquote] @ post"]
  unfolding nonce_occurrence_def by (simp only: append_Nil) blast

lemma occurrence_dropD:
  assumes "nonce_occurrence bl content pre sp1 sp2 v post"
  shows "length pre \<le> length content"
    and "nonce_occurrence bl (drop (length pre) content) [] sp1 sp2 v post"
  using assms occurrence_drop[of bl content pre sp1 sp2 v post] by simp_all

lemma occurrence_dropI:
  assumes "i \<le> length content" and "nonce_occurrence bl (drop i content) [] sp1 sp2 v post"
  shows "nonce_occurrence bl content (take i content) sp1 sp2 v post"
  using assms occurrence_drop[of bl content "take i content" sp1 sp2 v post] by simp

lemma match_atD:
  "match_items (re_items NONCEREGEXP) t = Some ws \<Longrightarrow>
     \<exists>sp1 sp2 v post. nonce_occurrence '' '' t [] sp1 sp2 v post"
  using match_at_iff[of t] by simp

lemma match_atI:
  "nonce_occurrence '' '' t [] sp1 sp2 v post \<Longrightarrow> match_items (re_items NONCEREGEXP) t \<noteq> None"
  using match_at_iff[of t] by blast

lemma FindAllSubmatch_empty:
  "FindAllSubmatch NONCEREGEXP content = [] \<longleftrightarrow>
     \<not> (\<exists>pre sp1 sp2 v post. nonce_occurrence '' '' content pre sp1 sp2 v post)"
proof -
  have "FindAllSubmatch NONCEREGEXP content = [] \<longleftrightarrow>
          find_leftmost (re_items NONCEREGEXP) content = None"
    by (simp add: FindAllSubmatch_def split: option.splits)
  also have "\<dots> \<longleftrightarrow> (\<forall>i\<le>length content. match_items (re_items NONCEREGEXP) (drop i content) = None)"
    by (rule find_leftmost_None)
  also have "\<dots> \<longleftrightarrow> \<not> (\<exists>pre sp1 sp2 v post. nonce_occurrence '' '' content pre sp1 sp2 v post)"
  proof
    assume none: "\<forall>i\<le>length content. match_items (re_items NONCEREGEXP) (drop i content) = None"
    show "\<not> (\<exists>pre sp1 sp2 v post. nonce_occurrence '' '' content pre sp1 sp2 v post)"
    proof
      assume "\<exists>pre sp1 sp2 v post. nonce_occurrence '' '' content pre sp1 sp2 v post"
      then obtain pre sp1 sp2 v post where o: "nonce_occurrence '' '' content pre sp1 sp2 v post"
        by blast
      from occurrence_dropD[OF o] have le: "length pre \<le> length content"
        and "match_items (re_items NONCEREGEXP) (drop (length pre) content) \<noteq> None"
        using match_atI by blast+
      moreover from none le have "match_items (re_items NONCEREGEXP) (drop (length pre) content) = None"
        by blast
      ultimately show False by simp
    qed
  next
    assume no: "\<not> (\<exists>pre sp1 sp2 v post. nonce_occurrence '' '' content pre sp1 sp2 v post)"
    show "\<forall>i\<le>length content. match_items (re_items NONCEREGEXP) (drop i content) = None"
    proof (intro allI impI, rule ccontr)
      fix i assume i: "i \<le> length content"
        and "match_items (re_items NONCEREGEXP) (drop i content) \<noteq> None"
      then obtain ws where "match_items (re_items NONCEREGEXP) (drop i content) = Some ws" by auto
      from match_atD[OF this] obtain sp1 sp2 v post
        where "nonce_occurrence '' '' (drop i content) [] sp1 sp2 v post" by blast
      from occurrence_dropI[OF i this] no show False by blast
    qed
  qed
  finally show ?thesis .
qed

lemma occurrence_same_start:
  assumes o: "nonce_occurrence bl t [] sp1 sp2 v rest"
    and o': "nonce_occurrence bl t [] sp1' sp2' v' post'"
    and eqs: "CHR ''='' \<notin> set bl" and dq: "dquote \<notin> set bl"
  shows "sp1' = sp1 \<and> sp2' = sp2 \<and> v @ dquote # rest = v' @ dquote # post'"
proof -
  from o have t: "t = ''csrf_nonce'' @ sp1 @ ''='' @ sp2 @ [dquote] @ v @ [dquote] @ rest"
    and sp: "list_all (\<lambda>c. c \<in> set bl) sp1" "list_all (\<lambda>c. c \<in> set bl) sp2"
    by (simp_all add: nonce_occurrence_def)
  from o' have t': "t = ''csrf_nonce'' @ sp1' @ ''='' @ sp2' @ [dquote] @ v' @ [dquote] @ post'"
    and sp': "list_all (\<lambda>c. c \<in> set bl) sp1'" "list_all (\<lambda>c. c \<in> set bl) sp2'"
    by (simp_all add: nonce_occurrence_def)
  from t[symmetric] t'
  have "''csrf_nonce'' @ sp1 @ ''='' @ sp2 @ [dquote] @ v @ [dquote] @ rest
      = ''csrf_nonce'' @ sp1' @ ''='' @ sp2' @ [dquote] @ v' @ [dquote] @ post'"
    by (rule trans)
  then have e1: "sp1 @ CHR ''='' # (sp2 @ dquote # v @ dquote # rest)
          = sp1' @ CHR ''='' # (sp2' @ dquote # v' @ dquote # post')" by simp
  have "sp1 = sp1' \<and> sp2 @ dquote # v @ dquote # rest = sp2' @ dquote # v' @ dquote # post'"
    by (rule blank_run_unique[OF sp(1) sp'(1) eqs eqs e1])
  then have s1: "sp1' = sp1" and e2: "sp2 @ dquote # (v @ dquote # rest)
          = sp2' @ dquote # (v' @ dquote # post')" by simp_all
  have "sp2 = sp2' \<and> v @ dquote # rest = v' @ dquote # post'"
    by (rule blank_run_unique[OF sp(2) sp'(2) dq dq e2])
  with s1 show ?thesis by simp
qed

lemma FindAllSubmatch_first:
  assumes "FindAllSubmatch NONCEREGEXP content \<noteq> []"
  shows "\<exists>pre sp1 sp2 v post.
           FindAllSubmatch NONCEREGEXP content =
             [[''csrf_nonce'' @ sp1 @ ''='' @ sp2 @ [dquote] @ v @ [dquote], v]]
         \<and> nonce_occurrence '' '' content pre sp1 sp2 v post
         \<and> (\<forall>pre' sp1' sp2' v' post'. nonce_occurrence '' '' content pre' sp1' sp2' v' post' \<longrightarrow>
               length pre \<le> length pre' \<and> (length pre' = length pre \<longrightarrow> length v' \<le> length v))"
proof -
  let ?its = "re_items NONCEREGEXP"
  from assms obtain i ws where fl: "find_leftmost ?its content = Some (i, ws)"
    by (auto simp: FindAllSubmatch_def split: option.splits)
  from find_leftmost_Some[OF fl] have i: "i \<le> length content"
    and m: "match_items ?its (drop i content) = Some ws"
    and least: "\<forall>j<i. match_items ?its (drop j content) = None" by auto
  from match_items_sound[OF m] obtain rest where cf: "conforms ?its ws"
    and rest: "drop i content = concat ws @ rest" by auto
  from cf obtain sp1 sp2 v where ws: "ws = [''c'', ''s'', ''r'', ''f'', ''_'', ''n'', ''o'', ''n'', ''c'', ''e'',
                        sp1, ''='', sp2, [dquote], v, [dquote]]"
    and sp: "list_all (\<lambda>c. c \<in> set '' '') sp1" "list_all (\<lambda>c. c \<in> set '' '') sp2"
    and v: "v \<noteq> []" "list_all (\<lambda>c. c \<noteq> CHR 0x0A) v"
    unfolding conforms_NONCEREGEXP by blast
  have res: "FindAllSubmatch NONCEREGEXP content =
             [[''csrf_nonce'' @ sp1 @ ''='' @ sp2 @ [dquote] @ v @ [dquote], v]]"
    using fl ws by (simp add: FindAllSubmatch_def NONCEREGEXP_def lits_def)
  have occ0: "nonce_occurrence '' '' (drop i content) [] sp1 sp2 v rest"
    using rest ws sp v by (simp add: nonce_occurrence_def)
  from occurrence_dropI[OF i occ0]
  have occ: "nonce_occurrence '' '' content (take i content) sp1 sp2 v rest" .
  have pri: "length (take i content) \<le> length pre' \<and>
             (length pre' = length (take i content) \<longrightarrow> length v' \<le> length v)"
    if o': "nonce_occurrence '' '' content pre' sp1' sp2' v' post'" for pre' sp1' sp2' v' post'
  proof
    from occurrence_dropD[OF o'] have le: "length pre' \<le> length content"
      and o'': "nonce_occurrence '' '' (drop (length pre') content) [] sp1' sp2' v' post'" .
    from match_atI[OF o''] have nm: "match_items ?its (drop (length pre') content) \<noteq> None" .
    have "\<not> length pre' < i"
    proof
      assume lt: "length pre' < i"
      from least[rule_format, OF lt] nm show False by simp
    qed
    with i show "length (take i content) \<le> length pre'" by simp
    show "length pre' = length (take i content) \<longrightarrow> length v' \<le> length v"
    proof
      assume "length pre' = length (take i content)"
      with i have "length pre' = i" by simp
      with o'' have o3: "nonce_occurrence '' '' (drop i content) [] sp1' sp2' v' post'" by simp
      have v': "v' \<noteq> []" "list_all (\<lambda>c. c \<noteq> CHR 0x0A) v'"
        using o3 unfolding nonce_occurrence_def by simp_all
      have e3: "v @ dquote # rest = v' @ dquote # post'"
        using occurrence_same_start[OF occ0 o3] by (simp add: dquote_def)
      let ?n = "length (concat (take 14 ws))"
      have split: "?its = (re_prefix NONCEREGEXP) @ [(AnyCharNotNL, Plus), (Lit dquote, One)]"
        by (simp add: re_items_def NONCEREGEXP_def)
      have len: "length (re_prefix NONCEREGEXP) = 14" by (simp add: NONCEREGEXP_def lits_def)
      from match_items_split[of "re_prefix NONCEREGEXP" "[(AnyCharNotNL, Plus), (Lit dquote, One)]"
          "drop i content" ws] m split len
      have "match_items [(AnyCharNotNL, Plus), (Lit dquote, One)] (drop ?n (drop i content))
              = Some (drop 14 ws)" by simp
      moreover have "drop ?n (drop i content) = v @ dquote # rest"
        unfolding rest unfolding ws by simp
      moreover have "drop 14 ws = [v, [dquote]]" using ws by simp
      ultimately have g: "match_items [(AnyCharNotNL, Plus), (Lit dquote, One)] (v' @ dquote # post')
              = Some [v, [dquote]]" using e3 by metis
      have c: "conforms [(AnyCharNotNL, Plus), (Lit dquote, One)] [v', [dquote]]"
        using v' by (simp add: conforms_def accepts_Any)
      from match_items_greedy_Plus[OF g c, of post'] show "length v' \<le> length v" by simp
    qed
  qed
  show ?thesis
    apply (rule exI[of _ "take i content"])
    apply (rule exI[of _ sp1])
    apply (rule exI[of _ sp2])
    apply (rule exI[of _ v])
    apply (rule exI[of _ rest])
    using res occ pri by blast
qed

section \<open>Rounds of the readiness poll\<close>

lemma probe_trace_Suc:
  "probe_trace path (Suc n) = probe_trace path n @ [DefaultGet path, Sleep Second]"
proof -
  have "replicate (Suc n) [DefaultGet path, Sleep Second]
      = replicate n [DefaultGet path, Sleep Second] @ [[DefaultGet path, Sleep Second]]"
    by (simp add: replicate_append_same)
  then show ?thesis unfolding probe_trace_def by (simp del: replicate.simps)
qed

lemma probe_trace_0: "probe_trace path 0 = []"
  by (simp add: probe_trace_def)

lemma elapsed_at_mono: "i \<le> k \<Longrightarrow> elapsed_at E path tr i \<le> elapsed_at E path tr k"
  by (induction k) (auto simp: le_Suc_eq)


lemma poll_loop_deadline:
  "Minute \<le> elapsed \<Longrightarrow> poll_loop E path elapsed tr = (Some ServerUnavailableErr, tr)"
  by (subst poll_loop.simps) simp

lemma poll_loop_retry:
  "elapsed < Minute \<Longrightarrow> is_net_Error (poll (snd (default_get E tr path))) \<Longrightarrow>
     poll_loop E path elapsed tr =
       poll_loop E path (elapsed + fst (default_get E tr path) + Second)
         (tr @ [DefaultGet path, Sleep Second])"
  by (subst poll_loop.simps) simp

lemma poll_loop_terminal:
  "elapsed < Minute \<Longrightarrow> \<not> is_net_Error (poll (snd (default_get E tr path))) \<Longrightarrow>
     poll_loop E path elapsed tr = (poll (snd (default_get E tr path)), tr @ [DefaultGet path])"
  by (subst poll_loop.simps) simp

lemma poll_loop_unroll:
  "(\<And>i. i < n \<Longrightarrow> transient E path tr i \<and> elapsed_at E path tr i < Minute) \<Longrightarrow>
     poll_loop E path 0 tr = poll_loop E path (elapsed_at E path tr n) (tr @ probe_trace path n)"
proof (induction n)
  case 0
  show ?case by (simp add: probe_trace_0)
next
  case (Suc n)
  from Suc.prems[of n] have t: "transient E path tr n" and e: "elapsed_at E path tr n < Minute"
    by simp_all
  from Suc.prems have "poll_loop E path 0 tr
      = poll_loop E path (elapsed_at E path tr n) (tr @ probe_trace path n)"
    by (intro Suc.IH) simp
  also have "\<dots> = poll_loop E path (elapsed_at E path tr (Suc n)) (tr @ probe_trace path (Suc n))"
    using poll_loop_retry[OF e, of E "tr @ probe_trace path n" path] t
    by (simp add: transient_def probe_def probe_trace_Suc)
  finally show ?case .
qed


lemma waitForServer_poll_loop:
  "waitForServer E path tr =
     (case fst (poll_loop E path 0 tr) of None \<Rightarrow> Inr () | Some e \<Rightarrow> Inl e,
      snd (poll_loop E path 0 tr))"
  by (simp add: waitForServer_def split: prod.splits option.splits)


lemma count_probe_trace: "count_list (probe_trace path k) (Sleep Second) = k"
  by (induction k) (simp_all add: probe_trace_0 probe_trace_Suc)

section \<open>Steps of the session client and of the configuration\<close>

lemma getNonce_unfold:
  "getNonce E path tr =
     (case client_get E tr path of
        Inl e \<Rightarrow> (Inl (External e), tr @ [ClientGet path])
      | Inr resp \<Rightarrow>
          (case Body resp of
             Inl e \<Rightarrow> (Inl (External e), tr @ [ClientGet path])
           | Inr content \<Rightarrow>
               (if FindAllSubmatch NONCEREGEXP content = []
                then Inl (Errorf ''Unable to find nonce in page'')
                else Inr (FindAllSubmatch NONCEREGEXP content ! 0 ! 1),
                tr @ [ClientGet path])))"
  by (simp add: getNonce_def andThen_def call_val_def Let_def split: sum.splits)

lemma getNonce_trace: "snd (getNonce E path tr) = tr @ [ClientGet path]"
  by (simp add: getNonce_unfold split: sum.splits)

lemma createFlag_unfold:
  "createFlag E name flag points tr =
     (case getNonce E chal_endpoint tr of
        (Inl e, tr1) \<Rightarrow> (Inl e, tr1)
      | (Inr nonce, tr1) \<Rightarrow>
          (case client_do E tr1 (chal_request name flag points nonce) of
             Inl e \<Rightarrow> Inl (External e)
           | Inr resp \<Rightarrow> Inr (),
           tr1 @ [ClientDo (chal_request name flag points nonce)]))"
  by (simp add: createFlag_def andThen_def call_val_def split: prod.splits sum.splits)

lemma page_match:
  "FindAllSubmatch NONCEREGEXP page = [[''csrf_nonce = '' @ [dquote] @ ''abc123'' @ [dquote], ''abc123'']]"
  by (simp add: FindAllSubmatch_def re_items_def NONCEREGEXP_def lits_def page_def dquote_def)

lemma getNonce_page:
  "client_get E tr path = Inr \<lparr>StatusCode = code, Body = Inr page\<rparr> \<Longrightarrow>
     getNonce E path tr = (Inr ''abc123'', tr @ [ClientGet path])"
  by (simp add: getNonce_unfold page_match)

lemma createFlag_cases:
  assumes "createFlag E name flag points tr = (r, tr')"
  shows "(\<exists>e. r = Inl e \<and> getNonce E chal_endpoint tr = (Inl e, tr @ [ClientGet chal_endpoint])
            \<and> tr' = tr @ [ClientGet chal_endpoint])
       \<or> (\<exists>nonce. getNonce E chal_endpoint tr = (Inr nonce, tr @ [ClientGet chal_endpoint])
            \<and> tr' = tr @ [ClientGet chal_endpoint, ClientDo (chal_request name flag points nonce)]
            \<and> r = (case client_do E (tr @ [ClientGet chal_endpoint]) (chal_request name flag points nonce) of
                     Inl e \<Rightarrow> Inl (External e) | Inr resp \<Rightarrow> Inr ()))"
proof -
  obtain g tr1 where g: "getNonce E chal_endpoint tr = (g, tr1)" by (cases "getNonce E chal_endpoint tr")
  with getNonce_trace[of E chal_endpoint tr] have tr1: "tr1 = tr @ [ClientGet chal_endpoint]" by simp
  show ?thesis
  proof (cases g)
    case (Inl e)
    with assms g tr1 show ?thesis by (simp add: createFlag_unfold)
  next
    case (Inr nonce)
    with assms g tr1 show ?thesis by (auto simp: createFlag_unfold)
  qed
qed

lemma submissions_seeded:
  "length nonces = length flags \<Longrightarrow>
     submissions (seeded_events flags nonces) =
       map (\<lambda>(f, n). chal_request (FlagConfig.Name f) (Default f) (Points f) n) (zip flags nonces)"
  by (induction flags nonces rule: list_induct2') (simp_all add: chal_request_def)

lemma poll_loop_extends: "\<exists>mid. snd (poll_loop E path elapsed tr) = tr @ mid"
proof (induction E path elapsed tr rule: poll_loop.induct)
  case (1 E path elapsed tr)
  show ?case
  proof (cases "Minute \<le> elapsed")
    case True
    then show ?thesis by (simp add: poll_loop_deadline)
  next
    case False
    then have lt: "elapsed < Minute" by simp
    show ?thesis
    proof (cases "is_net_Error (poll (snd (default_get E tr path)))")
      case True
      from "1.IH"[OF False True] obtain mid where
        "snd (poll_loop E path (elapsed + fst (default_get E tr path) + Second)
               (tr @ [DefaultGet path, Sleep Second])) = (tr @ [DefaultGet path, Sleep Second]) @ mid"
        by (elim exE)
      with poll_loop_retry[OF lt True] show ?thesis by simp
    next
      case False
      with poll_loop_terminal[OF lt False] show ?thesis by simp
    qed
  qed
qed

lemma waitForServer_extends: "\<exists>mid. snd (waitForServer E path tr) = tr @ mid"
  using poll_loop_extends[of E path 0 tr] by (simp add: waitForServer_poll_loop)

lemma createFlags_extends: "\<exists>mid. snd (createFlags E flags tr) = tr @ mid"
proof (induction flags arbitrary: tr)
  case Nil
  show ?case by simp
next
  case (Cons flag flags)
  obtain r1 tr1 where c: "createFlag E (FlagConfig.Name flag) (Default flag) (Points flag) tr = (r1, tr1)"
    by (cases "createFlag E (FlagConfig.Name flag) (Default flag) (Points flag) tr")
  from createFlag_cases[OF c] obtain m1 where m1: "tr1 = tr @ m1" by auto
  show ?case
  proof (cases r1)
    case (Inl e)
    with c m1 show ?thesis by simp
  next
    case (Inr u)
    from Cons.IH[of tr1] obtain m2 where "snd (createFlags E flags tr1) = tr1 @ m2" by (elim exE)
    with c Inr m1 show ?thesis by simp
  qed
qed

lemma configureInstance_unfold:
  "configureInstance E ctf tr =
     (case waitForServer E setup_endpoint tr of
        (Inl e, tr0) \<Rightarrow> (Inl e, tr0)
      | (Inr u, tr0) \<Rightarrow>
          (case getNonce E setup_endpoint tr0 of
             (Inl e, tr1) \<Rightarrow> (Inl e, tr1)
           | (Inr nonce, tr1) \<Rightarrow>
               (case client_do E tr1 (setup_request (conf ctf) nonce) of
                  Inl e \<Rightarrow> (Inl (External e), tr1 @ [ClientDo (setup_request (conf ctf) nonce)])
                | Inr resp \<Rightarrow>
                    createFlags E (Flags (conf ctf))
                      (tr1 @ [ClientDo (setup_request (conf ctf) nonce)]))))"
  by (simp add: configureInstance_def andThen_def call_val_def split: prod.splits sum.splits)

lemma configureInstance_extends: "\<exists>mid. snd (configureInstance E ctf tr) = tr @ mid"
proof -
  obtain r0 tr0 where w: "waitForServer E setup_endpoint tr = (r0, tr0)"
    by (cases "waitForServer E setup_endpoint tr")
  with waitForServer_extends[of E setup_endpoint tr] obtain m0 where m0: "tr0 = tr @ m0" by auto
  show ?thesis
  proof (cases r0)
    case (Inl e)
    with w m0 show ?thesis by (simp add: configureInstance_unfold)
  next
    case (Inr u)
    obtain r1 tr1 where g: "getNonce E setup_endpoint tr0 = (r1, tr1)"
      by (cases "getNonce E setup_endpoint tr0")
    with getNonce_trace[of E setup_endpoint tr0] have tr1: "tr1 = tr0 @ [ClientGet setup_endpoint]"
      by simp
    show ?thesis
    proof (cases r1)
      case (Inl e)
      with w Inr g tr1 m0 show ?thesis by (simp add: configureInstance_unfold)
    next
      case nonce: (Inr nonce)
      let ?tr2 = "tr1 @ [ClientDo (setup_request (conf ctf) nonce)]"
      from createFlags_extends[of E "Flags (conf ctf)" ?tr2] obtain m2
        where "snd (createFlags E (Flags (conf ctf)) ?tr2) = ?tr2 @ m2" by (elim exE)
      with w Inr g nonce tr1 m0 show ?thesis
        by (simp add: configureInstance_unfold split: sum.splits)
    qed
  qed
qed

lemma createFlag_ok_iff:
  "createFlag E name flag points t = (Inr (), t') \<longleftrightarrow>
     (\<exists>nonce. getNonce E chal_endpoint t = (Inr nonce, t @ [ClientGet chal_endpoint])
        \<and> (case client_do E (t @ [ClientGet chal_endpoint]) (chal_request name flag points nonce) of
              Inl e \<Rightarrow> False | Inr resp \<Rightarrow> True)
        \<and> t' = t @ [ClientGet chal_endpoint, ClientDo (chal_request name flag points nonce)])"
proof -
  obtain g t1 where g: "getNonce E chal_endpoint t = (g, t1)" by (cases "getNonce E chal_endpoint t")
  with getNonce_trace[of E chal_endpoint t] have t1: "t1 = t @ [ClientGet chal_endpoint]" by simp
  show ?thesis
    by (cases g) (auto simp: createFlag_unfold g t1 split: sum.splits)
qed

lemma createFlag_fail_iff:
  "createFlag E name flag points t = (Inl e, t') \<longleftrightarrow>
     (getNonce E chal_endpoint t = (Inl e, t') \<and> t' = t @ [ClientGet chal_endpoint])
     \<or> (\<exists>nonce x. getNonce E chal_endpoint t = (Inr nonce, t @ [ClientGet chal_endpoint])
           \<and> client_do E (t @ [ClientGet chal_endpoint]) (chal_request name flag points nonce) = Inl x
           \<and> e = External x
           \<and> t' = t @ [ClientGet chal_endpoint, ClientDo (chal_request name flag points nonce)])"
proof -
  obtain g t1 where g: "getNonce E chal_endpoint t = (g, t1)" by (cases "getNonce E chal_endpoint t")
  with getNonce_trace[of E chal_endpoint t] have t1: "t1 = t @ [ClientGet chal_endpoint]" by simp
  show ?thesis
    by (cases g) (auto simp: createFlag_unfold g t1 split: sum.splits)
qed

lemma chal_request_nonce_inj:
  "chal_request name flag points a = chal_request name flag points b \<longleftrightarrow> a = b"
  by (simp add: chal_request_def)

lemma seeded_ok_Nil: "seeded_ok E tr [] ns \<longleftrightarrow> ns = []"
  by (cases ns) simp_all

lemma seeded_ok_Cons:
  "seeded_ok E tr (f # fs) ns \<longleftrightarrow>
     (\<exists>n ns'. ns = n # ns'
        \<and> createFlag E (FlagConfig.Name f) (Default f) (Points f) tr =
            (Inr (), tr @ [ClientGet chal_endpoint,
                           ClientDo (chal_request (FlagConfig.Name f) (Default f) (Points f) n)])
        \<and> seeded_ok E (tr @ [ClientGet chal_endpoint,
                           ClientDo (chal_request (FlagConfig.Name f) (Default f) (Points f) n)])
             fs ns')"
  by (cases ns) (auto simp: createFlag_ok_iff chal_request_nonce_inj)

lemma seeded_ok_length: "seeded_ok E tr flags nonces \<Longrightarrow> length nonces = length flags"
  by (induction E tr flags nonces rule: seeded_ok.induct) simp_all

lemma createFlags_ok_iff:
  "createFlags E flags tr = (Inr (), tr') \<longleftrightarrow>
     (\<exists>nonces. seeded_ok E tr flags nonces \<and> tr' = tr @ seeded_events flags nonces)"
proof (induction flags arbitrary: tr)
  case Nil
  show ?case by (auto simp: seeded_ok_Nil)
next
  case (Cons f fs)
  obtain r1 t1 where c: "createFlag E (FlagConfig.Name f) (Default f) (Points f) tr = (r1, t1)"
    by (cases "createFlag E (FlagConfig.Name f) (Default f) (Points f) tr")
  show ?case
  proof (cases r1)
    case (Inl e)
    with c show ?thesis by (auto simp: seeded_ok_Cons)
  next
    case (Inr u)
    with c have c': "createFlag E (FlagConfig.Name f) (Default f) (Points f) tr = (Inr (), t1)"
      by simp
    then obtain n where t1: "t1 = tr @ [ClientGet chal_endpoint,
        ClientDo (chal_request (FlagConfig.Name f) (Default f) (Points f) n)]"
      and gn: "getNonce E chal_endpoint tr = (Inr n, tr @ [ClientGet chal_endpoint])"
      unfolding createFlag_ok_iff by (elim exE conjE)
    have uniq: "m = n" if "createFlag E (FlagConfig.Name f) (Default f) (Points f) tr =
            (Inr (), tr @ [ClientGet chal_endpoint,
                           ClientDo (chal_request (FlagConfig.Name f) (Default f) (Points f) m)])" for m
      using that gn unfolding createFlag_ok_iff by (auto simp: chal_request_nonce_inj)
    have "createFlags E (f # fs) tr = createFlags E fs t1" using c' by simp
    also have "\<dots> = (Inr (), tr') \<longleftrightarrow>
        (\<exists>nonces. seeded_ok E t1 fs nonces \<and> tr' = t1 @ seeded_events fs nonces)"
      by (rule Cons.IH)
    also have "\<dots> \<longleftrightarrow>
        (\<exists>nonces. seeded_ok E tr (f # fs) nonces \<and> tr' = tr @ seeded_events (f # fs) nonces)"
    proof
      assume "\<exists>nonces. seeded_ok E t1 fs nonces \<and> tr' = t1 @ seeded_events fs nonces"
      then obtain ns where ns: "seeded_ok E t1 fs ns" "tr' = t1 @ seeded_events fs ns"
        by (elim exE conjE)
      show "\<exists>nonces. seeded_ok E tr (f # fs) nonces \<and> tr' = tr @ seeded_events (f # fs) nonces"
        apply (rule exI[of _ "n # ns"])
        using ns c' t1 by (simp add: seeded_ok_Cons)
    next
      assume "\<exists>nonces. seeded_ok E tr (f # fs) nonces \<and> tr' = tr @ seeded_events (f # fs) nonces"
      then obtain nonces where a: "seeded_ok E tr (f # fs) nonces"
        and b: "tr' = tr @ seeded_events (f # fs) nonces" by (elim exE conjE)
      from a obtain m ns where m: "nonces = m # ns"
        and cm: "createFlag E (FlagConfig.Name f) (Default f) (Points f) tr =
            (Inr (), tr @ [ClientGet chal_endpoint,
                           ClientDo (chal_request (FlagConfig.Name f) (Default f) (Points f) m)])"
        and rest: "seeded_ok E (tr @ [ClientGet chal_endpoint,
                           ClientDo (chal_request (FlagConfig.Name f) (Default f) (Points f) m)])
             fs ns"
        unfolding seeded_ok_Cons by (elim exE conjE)
      from uniq[OF cm] have "m = n" .
      with m rest b t1 show "\<exists>nonces. seeded_ok E t1 fs nonces \<and> tr' = t1 @ seeded_events fs nonces"
        by (intro exI[of _ ns]) simp
    qed
    finally show ?thesis .
  qed
qed

lemma createFlags_fail_iff:
  "createFlags E flags tr = (Inl e, tr') \<longleftrightarrow>
     (\<exists>done flag rest nonces. flags = done @ flag # rest \<and> seeded_ok E tr done nonces
        \<and> createFlag E (FlagConfig.Name flag) (Default flag) (Points flag)
             (tr @ seeded_events done nonces) = (Inl e, tr'))"
  (is "?L flags tr \<longleftrightarrow> ?R flags tr")
proof (induction flags arbitrary: tr)
  case Nil
  show ?case by simp
next
  case (Cons f fs)
  obtain r1 t1 where c: "createFlag E (FlagConfig.Name f) (Default f) (Points f) tr = (r1, t1)"
    by (cases "createFlag E (FlagConfig.Name f) (Default f) (Points f) tr")
  show ?case
  proof (cases r1)
    case (Inl e1)
    with c have c': "createFlag E (FlagConfig.Name f) (Default f) (Points f) tr = (Inl e1, t1)"
      by simp
    then have l: "?L (f # fs) tr \<longleftrightarrow> e = e1 \<and> tr' = t1" by auto
    have "?R (f # fs) tr \<longleftrightarrow> e = e1 \<and> tr' = t1"
    proof
      assume "?R (f # fs) tr"
      then obtain dn flag rest nonces where d: "f # fs = dn @ flag # rest"
        "seeded_ok E tr dn nonces"
        "createFlag E (FlagConfig.Name flag) (Default flag) (Points flag)
             (tr @ seeded_events dn nonces) = (Inl e, tr')" by (elim exE conjE)
      show "e = e1 \<and> tr' = t1"
      proof (cases dn)
        case Nil
        with d have "flag = f" "nonces = []" by (simp_all add: seeded_ok_Nil)
        with d(3) Nil c' show ?thesis by simp
      next
        case (Cons a dn')
        with d(1) have "a = f" by simp
        with d(2) Cons c' show ?thesis by (auto simp: seeded_ok_Cons)
      qed
    next
      assume h: "e = e1 \<and> tr' = t1"
      show "?R (f # fs) tr"
        apply (rule exI[of _ "[]"])
        apply (rule exI[of _ f])
        apply (rule exI[of _ fs])
        apply (rule exI[of _ "[]"])
        using h c' by simp
    qed
    with l show ?thesis by simp
  next
    case (Inr u)
    with c have c': "createFlag E (FlagConfig.Name f) (Default f) (Points f) tr = (Inr (), t1)"
      by simp
    then obtain n where t1: "t1 = tr @ [ClientGet chal_endpoint,
        ClientDo (chal_request (FlagConfig.Name f) (Default f) (Points f) n)]"
      and gn: "getNonce E chal_endpoint tr = (Inr n, tr @ [ClientGet chal_endpoint])"
      unfolding createFlag_ok_iff by (elim exE conjE)
    have uniq: "m = n" if "createFlag E (FlagConfig.Name f) (Default f) (Points f) tr =
            (Inr (), tr @ [ClientGet chal_endpoint,
                           ClientDo (chal_request (FlagConfig.Name f) (Default f) (Points f) m)])" for m
      using that gn unfolding createFlag_ok_iff by (auto simp: chal_request_nonce_inj)
    have "?L (f # fs) tr \<longleftrightarrow> ?L fs t1" using c' by simp
    also have "\<dots> \<longleftrightarrow> ?R fs t1" by (rule Cons.IH)
    also have "\<dots> \<longleftrightarrow> ?R (f # fs) tr"
    proof
      assume "?R fs t1"
      then obtain dn flag rest nonces where d: "fs = dn @ flag # rest"
        "seeded_ok E t1 dn nonces"
        "createFlag E (FlagConfig.Name flag) (Default flag) (Points flag)
             (t1 @ seeded_events dn nonces) = (Inl e, tr')" by (elim exE conjE)
      show "?R (f # fs) tr"
        apply (rule exI[of _ "f # dn"])
        apply (rule exI[of _ flag])
        apply (rule exI[of _ rest])
        apply (rule exI[of _ "n # nonces"])
        using d c' t1 by (simp add: seeded_ok_Cons)
    next
      assume "?R (f # fs) tr"
      then obtain dn flag rest nonces where d: "f # fs = dn @ flag # rest"
        "seeded_ok E tr dn nonces"
        "createFlag E (FlagConfig.Name flag) (Default flag) (Points flag)
             (tr @ seeded_events dn nonces) = (Inl e, tr')" by (elim exE conjE)
      show "?R fs t1"
      proof (cases dn)
        case Nil
        with d have "flag = f" "nonces = []" by (simp_all add: seeded_ok_Nil)
        with d(3) Nil c' show ?thesis by simp
      next
        case (Cons a dn')
        with d(1) have a: "a = f" and fs: "fs = dn' @ flag # rest" by simp_all
        from d(2) Cons a have "seeded_ok E tr (f # dn') nonces" by simp
        then obtain m ns where m: "nonces = m # ns"
          and cm: "createFlag E (FlagConfig.Name f) (Default f) (Points f) tr =
            (Inr (), tr @ [ClientGet chal_endpoint,
                           ClientDo (chal_request (FlagConfig.Name f) (Default f) (Points f) m)])"
          and rest: "seeded_ok E (tr @ [ClientGet chal_endpoint,
                           ClientDo (chal_request (FlagConfig.Name f) (Default f) (Points f) m)])
             dn' ns"
          unfolding seeded_ok_Cons by (elim exE conjE)
        from uniq[OF cm] have mn: "m = n" .
        show ?thesis
          apply (rule exI[of _ dn'])
          apply (rule exI[of _ flag])
          apply (rule exI[of _ rest])
          apply (rule exI[of _ ns])
          using fs rest d(3) m mn t1 Cons a by simp
      qed
    qed
    finally show ?thesis .
  qed
qed

section \<open>Runs in the concrete environments\<close>

lemma fmt_d_204: "fmt_d 204 = ''204''"
  by (simp add: fmt_d.simps)

lemma fmt_d_500: "fmt_d 500 = ''500''"
  by (simp add: fmt_d.simps)

lemma Minute_pos: "0 < Minute"
  by (simp add: Minute_def Second_def)

lemma waitForServer_first_200:
  assumes "snd (default_get E tr path) = Inr resp" and "StatusCode resp = 200"
  shows "waitForServer E path tr = (Inr (), tr @ [DefaultGet path])"
proof -
  from assms have p: "poll (snd (default_get E tr path)) = None" by (simp add: poll_def)
  with poll_loop_terminal[OF Minute_pos, of E tr path]
  have "poll_loop E path 0 tr = (None, tr @ [DefaultGet path])" by simp
  then show ?thesis by (simp add: waitForServer_def)
qed

lemma createFlag_page:
  assumes "client_get E tr chal_endpoint = Inr \<lparr>StatusCode = code, Body = Inr page\<rparr>"
  shows "createFlag E name flag points tr =
     (case client_do E (tr @ [ClientGet chal_endpoint]) (chal_request name flag points ''abc123'') of
        Inl e \<Rightarrow> Inl (External e) | Inr resp \<Rightarrow> Inr (),
      tr @ [ClientGet chal_endpoint, ClientDo (chal_request name flag points ''abc123'')])"
  by (simp add: createFlag_unfold getNonce_page[OF assms])

lemma createFlags_env_ok:
  "createFlags env_ok (Flags cfg_demo) tr =
     (Inr (), tr @ [ClientGet chal_endpoint, ClientDo (chal_request ''A'' ''flag{a}'' 100 ''abc123''),
        ClientGet chal_endpoint, ClientDo (chal_request ''B'' ''flag{b}'' 200 ''abc123'')])"
proof -
  have g: "client_get env_ok t chal_endpoint = Inr \<lparr>StatusCode = 200, Body = Inr page\<rparr>" for t
    by (simp add: env_ok_def)
  have d: "client_do env_ok t r = Inr \<lparr>StatusCode = 200, Body = Inr []\<rparr>" for t r
    by (simp add: env_ok_def)
  show ?thesis by (simp add: cfg_demo_def createFlag_page[OF g] d)
qed

lemma configureInstance_env_ok:
  "conf ctf = cfg_demo \<Longrightarrow> configureInstance env_ok ctf tr =
     (Inr (), tr @ [DefaultGet setup_endpoint, ClientGet setup_endpoint,
        ClientDo (setup_request cfg_demo ''abc123''),
        ClientGet chal_endpoint, ClientDo (chal_request ''A'' ''flag{a}'' 100 ''abc123''),
        ClientGet chal_endpoint, ClientDo (chal_request ''B'' ''flag{b}'' 200 ''abc123'')])"
proof -
  assume c: "conf ctf = cfg_demo"
  have w: "waitForServer env_ok setup_endpoint tr = (Inr (), tr @ [DefaultGet setup_endpoint])"
    by (rule waitForServer_first_200[where resp = "\<lparr>StatusCode = 200, Body = Inr page\<rparr>"])
       (simp_all add: env_ok_def)
  have g: "getNonce env_ok setup_endpoint t = (Inr ''abc123'', t @ [ClientGet setup_endpoint])" for t
    by (rule getNonce_page[where code = 200]) (simp add: env_ok_def)
  have d: "client_do env_ok t r = Inr \<lparr>StatusCode = 200, Body = Inr []\<rparr>" for t r
    by (simp add: env_ok_def)
  show ?thesis by (simp add: configureInstance_unfold w g d c createFlags_env_ok)
qed

lemma New_env_ok: "New env_ok cfg_demo [] = (Inr ctf_demo, trace_demo)"
proof -
  have o: "cookiejar_New env_ok t = None" "get_docker_host_ip env_ok t = Inr ''172.17.0.1''"
    "temp_dir env_ok t a b = Inr ''/tmp/ctfd042''"
    "cont_start env_ok t c = None" "cont_close env_ok t c = None" for t a b c
    by (simp_all add: env_ok_def)
  have n1: "new_container env_ok t (initConf ip dir) = Inr ''setup''" for t ip dir
    by (simp add: env_ok_def initConf_def baseConf_def)
  have n2: "new_container env_ok t (baseConf ip dir) = Inr ''serving''" for t ip dir
    by (simp add: env_ok_def baseConf_def)
  show ?thesis
    by (simp add: New_def andThen_def call_err_def call_val_def o n1 n2
        configureInstance_env_ok ctf_demo_def trace_demo_def)
qed

lemma probe_env_retry:
  "probe env_retry path [] i =
     (if i < 3 then (Second div 2, Inl (NetError ''connection refused''))
      else (0, Inr \<lparr>StatusCode = 200, Body = Inr page\<rparr>))"
proof -
  have "length (probe_trace path i) = 2 * i"
    by (induction i) (simp_all add: probe_trace_0 probe_trace_Suc)
  then show ?thesis by (auto simp: probe_def env_retry_def env_ok_def)
qed

lemma probe_trace_3:
  "probe_trace path 3 = [DefaultGet path, Sleep Second, DefaultGet path, Sleep Second,
     DefaultGet path, Sleep Second]"
  by (simp add: probe_trace_def numeral_3_eq_3)

section \<open>Teardown\<close>

text \<open>
  C1 (as the code has it). Close first removes the data directory and only then, and only if
  the removal succeeded, closes the container held by the instance: among the calls of Close
  the removal is always the first, a close of the container can only follow it, and the
  container is never closed or stopped before the removal.
\<close>

theorem Close_order:
  "\<exists>rest. snd (Close E ctf tr) = tr @ RemoveAll (confDir ctf) # rest \<and>
     (rest = [] \<or> (\<exists>c. cont ctf = Some c \<and> rest = [ContClose c]
                      \<and> remove_all E tr (confDir ctf) = None))"
  by (cases "remove_all E tr (confDir ctf)"; cases "cont ctf")
     (simp_all add: Close_def andThen_def call_err_def on_cont_def)

theorem Close_order_witness:
  "Close env_ok ctf_demo [] = (Inr (), [RemoveAll ''/tmp/ctfd042'', ContClose ''serving''])"
  using Close_order [of env_ok ctf_demo "[]"]
  by (simp add: env_ok_def ctf_demo_def Close_def andThen_def call_err_def on_cont_def)

text \<open>
  As the specification states C1, the data path is removed only after the container has been
  stopped. In a run that starts the instance and closes it, the removal comes first.
\<close>

theorem Close_removes_before_stop:
  "snd (Close env_ok ctf_demo [ContStart ''serving'']) =
     [ContStart ''serving'', RemoveAll ''/tmp/ctfd042'', ContClose ''serving'']
   \<and> \<not> removal_after_stop (snd (Close env_ok ctf_demo [ContStart ''serving'']))"
  by (simp add: env_ok_def ctf_demo_def Close_def andThen_def call_err_def on_cont_def)

text \<open>
  C10. If removing the data directory fails, Close returns that error at once, and the only
  thing it has done is the attempted removal: the container is neither closed nor stopped.
  Conversely, whenever Close reaches the container, the removal has succeeded before.
\<close>

theorem Close_removal_failure:
  "(remove_all E tr (confDir ctf) = Some e \<longrightarrow>
      Close E ctf tr = (Inl (External e), tr @ [RemoveAll (confDir ctf)]))
   \<and> (ContClose c \<in> set (drop (length tr) (snd (Close E ctf tr))) \<longrightarrow>
      remove_all E tr (confDir ctf) = None)"
  by (cases "remove_all E tr (confDir ctf)")
     (auto simp: Close_def andThen_def call_err_def on_cont_def split: option.splits)

theorem Close_removal_failure_witness:
  "remove_all env_rm_fails [] (confDir ctf_demo) = Some (OtherError ''permission denied'')
   \<and> Close env_rm_fails ctf_demo [] =
       (Inl (External (OtherError ''permission denied'')), [RemoveAll ''/tmp/ctfd042''])
   \<and> ContClose ''serving'' \<in> set (drop (length ([]::event list)) (snd (Close env_ok ctf_demo [])))
   \<and> remove_all env_ok [] (confDir ctf_demo) = None"
  using Close_removal_failure [of env_rm_fails "[]" ctf_demo "OtherError ''permission denied''" "''serving''"]
    Close_removal_failure [of env_ok "[]" ctf_demo "OtherError ''permission denied''" "''serving''"]
  by (simp add: env_rm_fails_def env_ok_def ctf_demo_def Close_def andThen_def call_err_def on_cont_def)

section \<open>Form submissions\<close>

text \<open>
  C2 (as the code has it). A form submission fails exactly when the HTTP exchange itself
  fails; the response is never looked at. Once the nonce has been fetched, \<open>createFlag\<close>
  returns the transport error of its POST or, for any response whatever its status, success;
  and \<open>configureInstance\<close> returns the transport error of the setup POST or, for any
  response, goes on to create the flags.
\<close>

theorem submission_ignores_status:
  "(getNonce E chal_endpoint tr = (Inr nonce, tr1) \<longrightarrow>
      createFlag E name flag points tr =
        (case client_do E tr1 (chal_request name flag points nonce) of
           Inl e \<Rightarrow> Inl (External e)
         | Inr resp \<Rightarrow> Inr (),
         tr1 @ [ClientDo (chal_request name flag points nonce)]))
   \<and> (waitForServer E setup_endpoint tr = (Inr (), tr0)
      \<and> getNonce E setup_endpoint tr0 = (Inr nonce', tr2) \<longrightarrow>
      configureInstance E ctf tr =
        (case client_do E tr2 (setup_request (conf ctf) nonce') of
           Inl e \<Rightarrow> (Inl (External e), tr2 @ [ClientDo (setup_request (conf ctf) nonce')])
         | Inr resp \<Rightarrow>
             createFlags E (Flags (conf ctf)) (tr2 @ [ClientDo (setup_request (conf ctf) nonce')])))"
  by (simp add: createFlag_unfold configureInstance_unfold)

theorem submission_ignores_status_witness:
  "getNonce env_ok chal_endpoint [] = (Inr ''abc123'', [ClientGet chal_endpoint])
   \<and> createFlag env_ok ''A'' ''flag{a}'' 100 [] =
       (Inr (), [ClientGet chal_endpoint, ClientDo (chal_request ''A'' ''flag{a}'' 100 ''abc123'')])
   \<and> waitForServer env_ok setup_endpoint [] = (Inr (), [DefaultGet setup_endpoint])
   \<and> getNonce env_ok setup_endpoint [DefaultGet setup_endpoint] =
       (Inr ''abc123'', [DefaultGet setup_endpoint, ClientGet setup_endpoint])
   \<and> configureInstance env_ok ctf_demo [] =
       createFlags env_ok (Flags cfg_demo)
         [DefaultGet setup_endpoint, ClientGet setup_endpoint,
          ClientDo (setup_request cfg_demo ''abc123'')]"
proof -
  have g: "getNonce env_ok u t = (Inr ''abc123'', t @ [ClientGet u])" for u t
    by (rule getNonce_page[where code = 200]) (simp add: env_ok_def)
  have w: "waitForServer env_ok setup_endpoint [] = (Inr (), [DefaultGet setup_endpoint])"
    using waitForServer_first_200[of env_ok "[]" setup_endpoint "\<lparr>StatusCode = 200, Body = Inr page\<rparr>"]
    by (simp add: env_ok_def)
  have d: "client_do env_ok t r = Inr \<lparr>StatusCode = 200, Body = Inr []\<rparr>" for t r
    by (simp add: env_ok_def)
  from submission_ignores_status [of env_ok "[]" "''abc123''" "[ClientGet chal_endpoint]"
      "''A''" "''flag{a}''" 100 "[DefaultGet setup_endpoint]" "''abc123''"
      "[DefaultGet setup_endpoint, ClientGet setup_endpoint]" ctf_demo]
  show ?thesis by (simp add: g w d ctf_demo_def)
qed

text \<open>
  As the specification states C2, a submission answered with a non-2xx status fails with an
  HTTPError. Here the platform answers the challenge submission with 403 and \<open>createFlag\<close>
  reports success.
\<close>

theorem submission_403_accepted:
  "client_do env_403 [ClientGet chal_endpoint] (chal_request ''A'' ''flag{a}'' 100 ''abc123'')
     = Inr \<lparr>StatusCode = 403, Body = Inr ''forbidden''\<rparr>
   \<and> \<not> is_2xx 403
   \<and> createFlag env_403 ''A'' ''flag{a}'' 100 [] =
       (Inr (), [ClientGet chal_endpoint, ClientDo (chal_request ''A'' ''flag{a}'' 100 ''abc123'')])"
proof -
  have g: "client_get env_403 [] chal_endpoint = Inr \<lparr>StatusCode = 200, Body = Inr page\<rparr>"
    by (simp add: env_403_def env_ok_def)
  have d: "client_do env_403 t r = Inr \<lparr>StatusCode = 403, Body = Inr ''forbidden''\<rparr>" for t r
    by (simp add: env_403_def)
  show ?thesis by (simp add: createFlag_page[OF g] d is_2xx_def)
qed
section \<open>The readiness poll\<close>

text \<open>
  C3 (as the code has it). If the first \<open>k\<close> probes end in transport failures, the next is
  answered with status 200, and the clock at the head of that round (the \<open>k\<close> seconds of
  sleep and the time the failed probes took) is within the minute, \<open>waitForServer\<close>
  succeeds after exactly \<open>k\<close> sleeps of one second and \<open>k + 1\<close> probes. If the first probe is
  answered with any status other than 200, \<open>waitForServer\<close> fails at once with the error
  for that status, after one probe and no sleep.
\<close>

theorem waitForServer_outcomes:
  "((\<forall>i<k. \<exists>d m. probe E path tr i = (d, Inl (NetError m)))
      \<and> snd (probe E path tr k) = Inr resp \<and> StatusCode resp = 200
      \<and> elapsed_at E path tr k < Minute \<longrightarrow>
        waitForServer E path tr = (Inr (), tr @ probe_trace path k @ [DefaultGet path])
        \<and> count_list (probe_trace path k @ [DefaultGet path]) (Sleep Second) = k)
   \<and> (snd (probe E path tr 0) = Inr resp0 \<and> StatusCode resp0 \<noteq> 200 \<longrightarrow>
        waitForServer E path tr =
          (Inl (Errorf (''Unxpected status code: '' @ fmt_d (StatusCode resp0))),
           tr @ [DefaultGet path]))"
proof (intro conjI impI)
  assume h: "(\<forall>i<k. \<exists>d m. probe E path tr i = (d, Inl (NetError m)))
      \<and> snd (probe E path tr k) = Inr resp \<and> StatusCode resp = 200
      \<and> elapsed_at E path tr k < Minute"
  have before: "transient E path tr i \<and> elapsed_at E path tr i < Minute" if "i < k" for i
  proof
    from h have "\<forall>i<k. \<exists>d m. probe E path tr i = (d, Inl (NetError m))" by simp
    from this[rule_format, OF that]
    obtain d m where "probe E path tr i = (d, Inl (NetError m))" by (elim exE)
    then show "transient E path tr i" by (simp add: transient_def poll_def)
    from that have "elapsed_at E path tr i \<le> elapsed_at E path tr k"
      by (intro elapsed_at_mono) simp
    with h show "elapsed_at E path tr i < Minute" by simp
  qed
  have unroll: "poll_loop E path 0 tr
      = poll_loop E path (elapsed_at E path tr k) (tr @ probe_trace path k)"
    using before by (rule poll_loop_unroll)
  from h have p: "poll (snd (default_get E (tr @ probe_trace path k) path)) = None"
    by (simp add: probe_def poll_def)
  from h have lt: "elapsed_at E path tr k < Minute" by simp
  have "poll_loop E path (elapsed_at E path tr k) (tr @ probe_trace path k)
      = (None, tr @ probe_trace path k @ [DefaultGet path])"
    using poll_loop_terminal[OF lt, of E "tr @ probe_trace path k" path] p by simp
  then show "waitForServer E path tr = (Inr (), tr @ probe_trace path k @ [DefaultGet path])"
    by (simp add: waitForServer_poll_loop unroll)
  show "count_list (probe_trace path k @ [DefaultGet path]) (Sleep Second) = k"
    by (simp add: count_probe_trace)
next
  assume h: "snd (probe E path tr 0) = Inr resp0 \<and> StatusCode resp0 \<noteq> 200"
  from h have p: "poll (snd (default_get E tr path))
      = Some (Errorf (''Unxpected status code: '' @ fmt_d (StatusCode resp0)))"
    by (simp add: probe_def probe_trace_0 poll_def)
  have "poll_loop E path 0 tr = (poll (snd (default_get E tr path)), tr @ [DefaultGet path])"
    using poll_loop_terminal[OF Minute_pos, of E tr path] p by simp
  with p show "waitForServer E path tr =
          (Inl (Errorf (''Unxpected status code: '' @ fmt_d (StatusCode resp0))),
           tr @ [DefaultGet path])"
    by (simp add: waitForServer_poll_loop)
qed

theorem waitForServer_outcomes_witness:
  "probe env_retry setup_endpoint [] 0 = (Second div 2, Inl (NetError ''connection refused''))
   \<and> probe env_retry setup_endpoint [] 1 = (Second div 2, Inl (NetError ''connection refused''))
   \<and> probe env_retry setup_endpoint [] 2 = (Second div 2, Inl (NetError ''connection refused''))
   \<and> snd (probe env_retry setup_endpoint [] 3) = Inr \<lparr>StatusCode = 200, Body = Inr page\<rparr>
   \<and> elapsed_at env_retry setup_endpoint [] 3 < Minute
   \<and> waitForServer env_retry setup_endpoint [] =
       (Inr (), [DefaultGet setup_endpoint, Sleep Second, DefaultGet setup_endpoint, Sleep Second,
                 DefaultGet setup_endpoint, Sleep Second, DefaultGet setup_endpoint])
   \<and> snd (probe env_500 setup_endpoint [] 0) = Inr \<lparr>StatusCode = 500, Body = Inr []\<rparr>
   \<and> waitForServer env_500 setup_endpoint [] =
       (Inl (Errorf ''Unxpected status code: 500''), [DefaultGet setup_endpoint])"
proof -
  have h: "(\<forall>i<3. \<exists>d m. probe env_retry setup_endpoint [] i = (d, Inl (NetError m)))
     \<and> snd (probe env_retry setup_endpoint [] 3) = Inr \<lparr>StatusCode = 200, Body = Inr page\<rparr>
     \<and> StatusCode \<lparr>StatusCode = 200, Body = Inr page\<rparr> = 200
     \<and> elapsed_at env_retry setup_endpoint [] 3 < Minute"
    by (simp add: probe_env_retry numeral_3_eq_3 Minute_def Second_def)
  have h': "snd (probe env_500 setup_endpoint [] 0) = Inr \<lparr>StatusCode = 500, Body = Inr []\<rparr>"
    by (simp add: probe_def probe_trace_0 env_500_def env_ok_def)
  from waitForServer_outcomes [of 3 env_retry setup_endpoint "[]"
      "\<lparr>StatusCode = 200, Body = Inr page\<rparr>" "\<lparr>StatusCode = 500, Body = Inr []\<rparr>"] h
  have a: "waitForServer env_retry setup_endpoint [] =
      (Inr (), probe_trace setup_endpoint 3 @ [DefaultGet setup_endpoint])" by simp
  from waitForServer_outcomes [of 0 env_500 setup_endpoint "[]"
      "\<lparr>StatusCode = 500, Body = Inr []\<rparr>" "\<lparr>StatusCode = 500, Body = Inr []\<rparr>"] h'
  have b: "waitForServer env_500 setup_endpoint [] =
      (Inl (Errorf ''Unxpected status code: 500''), [DefaultGet setup_endpoint])"
    by (simp add: fmt_d_500)
  from h h' a b show ?thesis by (simp add: probe_trace_3 probe_env_retry)
qed

text \<open>
  As the specification states C3, any 2xx answer ends the poll with success. Here the first
  probe is answered with 204 and \<open>waitForServer\<close> fails.
\<close>

theorem waitForServer_204_fails:
  "snd (probe env_204 setup_endpoint [] 0) = Inr \<lparr>StatusCode = 204, Body = Inr []\<rparr>
   \<and> is_2xx 204
   \<and> waitForServer env_204 setup_endpoint [] =
       (Inl (Errorf ''Unxpected status code: 204''), [DefaultGet setup_endpoint])"
proof -
  have p: "poll (snd (default_get env_204 [] setup_endpoint))
      = Some (Errorf ''Unxpected status code: 204'')"
    by (simp add: env_204_def env_ok_def poll_def fmt_d_204)
  have "poll_loop env_204 setup_endpoint 0 [] =
      (Some (Errorf ''Unxpected status code: 204''), [DefaultGet setup_endpoint])"
    using poll_loop_terminal[OF Minute_pos, of env_204 "[]" setup_endpoint] p by simp
  then show ?thesis
    by (simp add: waitForServer_def probe_def probe_trace_0 is_2xx_def env_204_def env_ok_def)
qed




section \<open>Nonce extraction\<close>

text \<open>
  C5 (as the code has it). \<open>getNonce\<close> scans the body of the fetched page with the pattern
  \<^verbatim>\<open>csrf_nonce[ ]*=[ ]*"(.+)"\<close>, in which only space characters may surround the equals
  sign. It returns the error "Unable to find nonce in page" exactly when the body has no
  occurrence of the pattern, and otherwise the captured value of the first match: the
  occurrence that starts leftmost and, there, has the longest value.
\<close>

theorem getNonce_scan:
  assumes "client_get E tr path = Inr resp" and "Body resp = Inr content"
  shows "(fst (getNonce E path tr) = Inl (Errorf ''Unable to find nonce in page'') \<longleftrightarrow>
            \<not> (\<exists>pre sp1 sp2 v post. nonce_occurrence '' '' content pre sp1 sp2 v post))
       \<and> (fst (getNonce E path tr) = Inl (Errorf ''Unable to find nonce in page'')
            \<or> (\<exists>v. fst (getNonce E path tr) = Inr v))
       \<and> (\<forall>v. fst (getNonce E path tr) = Inr v \<longrightarrow>
            (\<exists>pre sp1 sp2 post. nonce_occurrence '' '' content pre sp1 sp2 v post
               \<and> (\<forall>pre' sp1' sp2' v' post'.
                     nonce_occurrence '' '' content pre' sp1' sp2' v' post' \<longrightarrow>
                       length pre \<le> length pre'
                       \<and> (length pre' = length pre \<longrightarrow> length v' \<le> length v))))"
proof (cases "FindAllSubmatch NONCEREGEXP content = []")
  case True
  with assms have "fst (getNonce E path tr) = Inl (Errorf ''Unable to find nonce in page'')"
    by (simp add: getNonce_unfold)
  with True show ?thesis by (simp add: FindAllSubmatch_empty)
next
  case False
  from FindAllSubmatch_first[OF False] obtain pre sp1 sp2 v post
    where res: "FindAllSubmatch NONCEREGEXP content =
             [[''csrf_nonce'' @ sp1 @ ''='' @ sp2 @ [dquote] @ v @ [dquote], v]]"
      and occ: "nonce_occurrence '' '' content pre sp1 sp2 v post"
      and first: "\<forall>pre' sp1' sp2' v' post'.
             nonce_occurrence '' '' content pre' sp1' sp2' v' post' \<longrightarrow>
               length pre \<le> length pre' \<and> (length pre' = length pre \<longrightarrow> length v' \<le> length v)"
    by (elim exE conjE)
  from assms res have g: "fst (getNonce E path tr) = Inr v" by (simp add: getNonce_unfold)
  have "\<exists>pre sp1 sp2 v post. nonce_occurrence '' '' content pre sp1 sp2 v post"
    using occ by (intro exI)
  moreover have "\<exists>pre sp1 sp2 post. nonce_occurrence '' '' content pre sp1 sp2 v post
               \<and> (\<forall>pre' sp1' sp2' v' post'.
                     nonce_occurrence '' '' content pre' sp1' sp2' v' post' \<longrightarrow>
                       length pre \<le> length pre'
                       \<and> (length pre' = length pre \<longrightarrow> length v' \<le> length v))"
    apply (rule exI[of _ pre])
    apply (rule exI[of _ sp1])
    apply (rule exI[of _ sp2])
    apply (rule exI[of _ post])
    using occ first by simp
  ultimately show ?thesis using g by simp
qed

theorem getNonce_scan_witness:
  "client_get env_ok [] chal_endpoint = Inr \<lparr>StatusCode = 200, Body = Inr page\<rparr>
   \<and> fst (getNonce env_ok chal_endpoint []) = Inr ''abc123''
   \<and> (\<exists>pre sp1 sp2 v post. nonce_occurrence '' '' page pre sp1 sp2 v post)
   \<and> client_get env_no_nonce [] chal_endpoint = Inr \<lparr>StatusCode = 200, Body = Inr ''<html></html>''\<rparr>
   \<and> fst (getNonce env_no_nonce chal_endpoint []) = Inl (Errorf ''Unable to find nonce in page'')
   \<and> \<not> (\<exists>pre sp1 sp2 v post. nonce_occurrence '' '' ''<html></html>'' pre sp1 sp2 v post)"
proof -
  have c1: "client_get env_ok [] chal_endpoint = Inr \<lparr>StatusCode = 200, Body = Inr page\<rparr>"
    by (simp add: env_ok_def)
  have c2: "client_get env_no_nonce [] chal_endpoint
      = Inr \<lparr>StatusCode = 200, Body = Inr ''<html></html>''\<rparr>"
    by (simp add: env_no_nonce_def)
  have g1: "fst (getNonce env_ok chal_endpoint []) = Inr ''abc123''"
    by (simp add: getNonce_page[OF c1])
  have m: "FindAllSubmatch NONCEREGEXP ''<html></html>'' = []"
    by (simp add: FindAllSubmatch_def re_items_def NONCEREGEXP_def lits_def dquote_def)
  have g2: "fst (getNonce env_no_nonce chal_endpoint []) = Inl (Errorf ''Unable to find nonce in page'')"
    by (simp add: getNonce_unfold c2 m)
  from getNonce_scan [OF c1, of page] g1
  have o1: "\<exists>pre sp1 sp2 v post. nonce_occurrence '' '' page pre sp1 sp2 v post" by simp
  from getNonce_scan [OF c2, of "''<html></html>''"] g2
  have o2: "\<not> (\<exists>pre sp1 sp2 v post. nonce_occurrence '' '' ''<html></html>'' pre sp1 sp2 v post)"
    by simp
  from c1 c2 g1 g2 o1 o2 show ?thesis by simp
qed

text \<open>
  As the specification states C5, any whitespace may surround the equals sign. A page with a
  tab there has a match of the pattern \<^verbatim>\<open>csrf_nonce\s*=\s*"(.+)"\<close>, with the value \<open>abc\<close>,
  and \<open>getNonce\<close> finds no nonce in it.
\<close>

theorem getNonce_tab_not_found:
  "FindAllSubmatch spec_NONCEREGEXP page_tab = [[page_tab, ''abc'']]
   \<and> nonce_occurrence spec_whitespace page_tab [] [CHR 0x09] '' '' ''abc'' []
   \<and> client_get env_tab [] chal_endpoint = Inr \<lparr>StatusCode = 200, Body = Inr page_tab\<rparr>
   \<and> getNonce env_tab chal_endpoint [] =
       (Inl (Errorf ''Unable to find nonce in page''), [ClientGet chal_endpoint])"
proof -
  have a: "FindAllSubmatch spec_NONCEREGEXP page_tab = [[page_tab, ''abc'']]"
    by (simp add: FindAllSubmatch_def re_items_def spec_NONCEREGEXP_def spec_whitespace_def
        lits_def page_tab_def dquote_def)
  have b: "nonce_occurrence spec_whitespace page_tab [] [CHR 0x09] '' '' ''abc'' []"
    by (simp add: nonce_occurrence_def spec_whitespace_def page_tab_def dquote_def)
  have c: "client_get env_tab [] chal_endpoint = Inr \<lparr>StatusCode = 200, Body = Inr page_tab\<rparr>"
    by (simp add: env_tab_def)
  have m: "FindAllSubmatch NONCEREGEXP page_tab = []"
    by (simp add: FindAllSubmatch_def re_items_def NONCEREGEXP_def lits_def page_tab_def dquote_def)
  have d: "getNonce env_tab chal_endpoint [] =
       (Inl (Errorf ''Unable to find nonce in page''), [ClientGet chal_endpoint])"
    by (simp add: getNonce_unfold c m)
  from a b c d show ?thesis by simp
qed

section \<open>Flag seeding\<close>

text \<open>
  C6 (as the code has it). The loop over the flags handles them in the order given: for each
  flag it fetches a nonce from the challenge-creation page and then issues one submission
  with that flag's name, secret and points and the nonce just fetched. It succeeds exactly
  when every fetch gives a nonce and every submission is answered, whatever the status of the
  answer; its calls are then exactly these pairs, one per flag, so there is exactly one
  submission per definition, in input order. It fails with an error exactly when, after some
  flags seeded in full, \<open>createFlag\<close> returns that error for the next flag: the trace ends
  with that flag's calls and nothing is issued for the flags after it. \<open>createFlag\<close> fails
  only when the fetch of the nonce fails or when the submission is cut off at the HTTP
  exchange.
\<close>

theorem createFlags_trace:
  "(createFlags E flags tr = (Inr (), tr') \<longleftrightarrow>
      (\<exists>nonces. seeded_ok E tr flags nonces \<and> tr' = tr @ seeded_events flags nonces))
   \<and> (createFlags E flags tr = (Inl e, tr') \<longleftrightarrow>
      (\<exists>done flag rest nonces. flags = done @ flag # rest \<and> seeded_ok E tr done nonces
         \<and> createFlag E (FlagConfig.Name flag) (Default flag) (Points flag)
              (tr @ seeded_events done nonces) = (Inl e, tr')))
   \<and> (seeded_ok E tr flags nonces \<longrightarrow>
        length nonces = length flags
        \<and> submissions (seeded_events flags nonces) =
            map (\<lambda>(f, n). chal_request (FlagConfig.Name f) (Default f) (Points f) n)
              (zip flags nonces))
   \<and> (createFlag E name flag points t = (Inl e, t') \<longleftrightarrow>
        (getNonce E chal_endpoint t = (Inl e, t') \<and> t' = t @ [ClientGet chal_endpoint])
        \<or> (\<exists>nonce x. getNonce E chal_endpoint t = (Inr nonce, t @ [ClientGet chal_endpoint])
              \<and> client_do E (t @ [ClientGet chal_endpoint]) (chal_request name flag points nonce)
                  = Inl x
              \<and> e = External x
              \<and> t' = t @ [ClientGet chal_endpoint,
                           ClientDo (chal_request name flag points nonce)]))"
proof (intro conjI impI)
  show "createFlags E flags tr = (Inr (), tr') \<longleftrightarrow>
      (\<exists>nonces. seeded_ok E tr flags nonces \<and> tr' = tr @ seeded_events flags nonces)"
    by (rule createFlags_ok_iff)
  show "createFlags E flags tr = (Inl e, tr') \<longleftrightarrow>
      (\<exists>done flag rest nonces. flags = done @ flag # rest \<and> seeded_ok E tr done nonces
         \<and> createFlag E (FlagConfig.Name flag) (Default flag) (Points flag)
              (tr @ seeded_events done nonces) = (Inl e, tr'))"
    by (rule createFlags_fail_iff)
  show "createFlag E name flag points t = (Inl e, t') \<longleftrightarrow>
        (getNonce E chal_endpoint t = (Inl e, t') \<and> t' = t @ [ClientGet chal_endpoint])
        \<or> (\<exists>nonce x. getNonce E chal_endpoint t = (Inr nonce, t @ [ClientGet chal_endpoint])
              \<and> client_do E (t @ [ClientGet chal_endpoint]) (chal_request name flag points nonce)
                  = Inl x
              \<and> e = External x
              \<and> t' = t @ [ClientGet chal_endpoint,
                           ClientDo (chal_request name flag points nonce)])"
    by (rule createFlag_fail_iff)
next
  assume ok: "seeded_ok E tr flags nonces"
  then show "length nonces = length flags" by (rule seeded_ok_length)
  then show "submissions (seeded_events flags nonces) =
            map (\<lambda>(f, n). chal_request (FlagConfig.Name f) (Default f) (Points f) n)
              (zip flags nonces)"
    by (rule submissions_seeded)
qed

theorem createFlags_trace_witness:
  "seeded_ok env_ok [] (Flags cfg_demo) [''abc123'', ''abc123'']
   \<and> createFlags env_ok (Flags cfg_demo) [] =
       (Inr (), [ClientGet chal_endpoint, ClientDo (chal_request ''A'' ''flag{a}'' 100 ''abc123''),
                 ClientGet chal_endpoint, ClientDo (chal_request ''B'' ''flag{b}'' 200 ''abc123'')])
   \<and> submissions (seeded_events (Flags cfg_demo) [''abc123'', ''abc123'']) =
       [chal_request ''A'' ''flag{a}'' 100 ''abc123'', chal_request ''B'' ''flag{b}'' 200 ''abc123'']
   \<and> seeded_ok env_second_post_fails [] (take 1 flags_three) [''abc123'']
   \<and> createFlag env_second_post_fails ''B'' ''flag{b}'' 200
         [ClientGet chal_endpoint, ClientDo (chal_request ''A'' ''flag{a}'' 100 ''abc123'')] =
       (Inl (External (NetError ''connection reset'')),
        [ClientGet chal_endpoint, ClientDo (chal_request ''A'' ''flag{a}'' 100 ''abc123''),
         ClientGet chal_endpoint, ClientDo (chal_request ''B'' ''flag{b}'' 200 ''abc123'')])
   \<and> createFlags env_second_post_fails flags_three [] =
       (Inl (External (NetError ''connection reset'')),
        [ClientGet chal_endpoint, ClientDo (chal_request ''A'' ''flag{a}'' 100 ''abc123''),
         ClientGet chal_endpoint, ClientDo (chal_request ''B'' ''flag{b}'' 200 ''abc123'')])"
proof -
  let ?A = "\<lparr> FlagConfig.Name = ''A'', Default = ''flag{a}'', Points = 100 \<rparr>"
  let ?B = "\<lparr> FlagConfig.Name = ''B'', Default = ''flag{b}'', Points = 200 \<rparr>"
  let ?C = "\<lparr> FlagConfig.Name = ''C'', Default = ''flag{c}'', Points = 300 \<rparr>"
  let ?tA = "[ClientGet chal_endpoint, ClientDo (chal_request ''A'' ''flag{a}'' 100 ''abc123'')]"
  let ?tAB = "[ClientGet chal_endpoint, ClientDo (chal_request ''A'' ''flag{a}'' 100 ''abc123''),
         ClientGet chal_endpoint, ClientDo (chal_request ''B'' ''flag{b}'' 200 ''abc123'')]"
  have u: "URL (chal_request n f p x) = chal_endpoint" for n f p x
    by (simp add: chal_request_def)
  have g1: "getNonce env_ok chal_endpoint t = (Inr ''abc123'', t @ [ClientGet chal_endpoint])" for t
    by (rule getNonce_page[where code = 200]) (simp add: env_ok_def)
  have d1: "client_do env_ok t r = Inr \<lparr>StatusCode = 200, Body = Inr []\<rparr>" for t r
    by (simp add: env_ok_def)
  have ok1: "seeded_ok env_ok [] (Flags cfg_demo) [''abc123'', ''abc123'']"
    by (simp add: cfg_demo_def g1 d1)
  have ev1: "seeded_events (Flags cfg_demo) [''abc123'', ''abc123''] = ?tAB"
    by (simp add: cfg_demo_def)
  from createFlags_trace [of env_ok "Flags cfg_demo" "[]" ?tAB] ok1 ev1
  have r1: "createFlags env_ok (Flags cfg_demo) [] = (Inr (), ?tAB)" by auto
  from createFlags_trace [of env_ok "Flags cfg_demo" "[]" ?tAB _ "[''abc123'', ''abc123'']"] ok1 ev1
  have s1: "submissions (seeded_events (Flags cfg_demo) [''abc123'', ''abc123'']) =
       [chal_request ''A'' ''flag{a}'' 100 ''abc123'', chal_request ''B'' ''flag{b}'' 200 ''abc123'']"
    by (simp add: cfg_demo_def)
  have cg: "client_get env_second_post_fails t chal_endpoint
      = Inr \<lparr>StatusCode = 200, Body = Inr page\<rparr>" for t
    by (simp add: env_second_post_fails_def env_ok_def)
  have g2: "getNonce env_second_post_fails chal_endpoint t
      = (Inr ''abc123'', t @ [ClientGet chal_endpoint])" for t
    by (rule getNonce_page[OF cg])
  have d2: "client_do env_second_post_fails t r =
        (if length (submissions t) = 1 then Inl (NetError ''connection reset'')
         else Inr \<lparr>StatusCode = 200, Body = Inr []\<rparr>)" for t r
    by (simp add: env_second_post_fails_def)
  have f3: "flags_three = [?A] @ ?B # [?C]" by (simp add: flags_three_def cfg_demo_def)
  have ok2: "seeded_ok env_second_post_fails [] [?A] [''abc123'']"
    by (simp add: g2 d2)
  have cB: "createFlag env_second_post_fails ''B'' ''flag{b}'' 200 ?tA =
       (Inl (External (NetError ''connection reset'')), ?tAB)"
    by (simp add: createFlag_page[OF cg] d2 u)
  have "\<exists>done flag rest nonces. flags_three = done @ flag # rest
         \<and> seeded_ok env_second_post_fails [] done nonces
         \<and> createFlag env_second_post_fails (FlagConfig.Name flag) (Default flag) (Points flag)
              ([] @ seeded_events done nonces) = (Inl (External (NetError ''connection reset'')), ?tAB)"
    apply (rule exI[of _ "[?A]"])
    apply (rule exI[of _ ?B])
    apply (rule exI[of _ "[?C]"])
    apply (rule exI[of _ "[''abc123'']"])
    using f3 ok2 cB by simp
  with createFlags_trace [of env_second_post_fails flags_three "[]" ?tAB
      "External (NetError ''connection reset'')"]
  have r2: "createFlags env_second_post_fails flags_three [] =
       (Inl (External (NetError ''connection reset'')), ?tAB)" by blast
  have ok2': "seeded_ok env_second_post_fails [] (take 1 flags_three) [''abc123'']"
    using ok2 by (simp add: f3)
  from ok1 r1 s1 ok2' cB r2 show ?thesis by simp
qed

text \<open>
  As the specification states C6, the first failing submission ends the loop and is returned,
  and a submission answered with a non-2xx status is a failing one. Here the platform answers
  the submission of the first flag with 403; the loop goes on to submit the second flag and
  returns no error.
\<close>

theorem createFlags_403_continues:
  "client_do env_403 [ClientGet chal_endpoint] (chal_request ''A'' ''flag{a}'' 100 ''abc123'')
     = Inr \<lparr>StatusCode = 403, Body = Inr ''forbidden''\<rparr>
   \<and> \<not> is_2xx 403
   \<and> createFlags env_403 (Flags cfg_demo) [] =
       (Inr (), [ClientGet chal_endpoint, ClientDo (chal_request ''A'' ''flag{a}'' 100 ''abc123''),
                 ClientGet chal_endpoint, ClientDo (chal_request ''B'' ''flag{b}'' 200 ''abc123'')])"
proof -
  have g: "client_get env_403 t chal_endpoint = Inr \<lparr>StatusCode = 200, Body = Inr page\<rparr>" for t
    by (simp add: env_403_def env_ok_def)
  have d: "client_do env_403 t r = Inr \<lparr>StatusCode = 403, Body = Inr ''forbidden''\<rparr>" for t r
    by (simp add: env_403_def)
  show ?thesis by (simp add: cfg_demo_def createFlag_page[OF g] d is_2xx_def)
qed

section \<open>Construction\<close>

text \<open>
  C8. If the setup container cannot be started, \<open>New\<close> returns the error of the start and its
  calls are the cookie jar, the host address lookup, the temporary directory, the creation of
  the setup container and the failed start, and nothing else: no HTTP request of any kind (no
  readiness probe, no nonce fetch, no submission), no second container, and no removal of
  the directory or close of the container.
\<close>

theorem New_setup_start_failure:
  assumes "cookiejar_New E tr = None"
    and "get_docker_host_ip E (tr @ [CookiejarNew]) = Inr ip"
    and "temp_dir E (tr @ [CookiejarNew, GetDockerHostIP]) [] ''ctfd'' = Inr dir"
    and "new_container E (tr @ [CookiejarNew, GetDockerHostIP, TempDir [] ''ctfd''])
           (initConf ip dir) = Inr c"
    and "cont_start E (tr @ [CookiejarNew, GetDockerHostIP, TempDir [] ''ctfd'',
           NewContainer (initConf ip dir)]) c = Some e"
  shows "New E cfg tr = (Inl (External e),
           tr @ [CookiejarNew, GetDockerHostIP, TempDir [] ''ctfd'',
                 NewContainer (initConf ip dir), ContStart c])
       \<and> \<not> list_ex is_http (drop (length tr) (snd (New E cfg tr)))
       \<and> \<not> list_ex is_cleanup (drop (length tr) (snd (New E cfg tr)))
       \<and> NewContainer (baseConf ip dir) \<notin> set (drop (length tr) (snd (New E cfg tr)))"
proof -
  have "New E cfg tr = (Inl (External e),
           tr @ [CookiejarNew, GetDockerHostIP, TempDir [] ''ctfd'',
                 NewContainer (initConf ip dir), ContStart c])"
    using assms by (simp add: New_def andThen_def call_err_def call_val_def)
  then show ?thesis by (simp add: initConf_def baseConf_def)
qed

theorem New_setup_start_failure_witness:
  "New env_start_fails cfg_demo [] =
     (Inl (External (OtherError ''No such image'')),
      [CookiejarNew, GetDockerHostIP, TempDir [] ''ctfd'',
       NewContainer (initConf ''172.17.0.1'' ''/tmp/ctfd042''), ContStart ''setup''])"
  using New_setup_start_failure [of env_start_fails "[]" "''172.17.0.1''" "''/tmp/ctfd042''"
      "''setup''" "OtherError ''No such image''" cfg_demo]
  by (simp add: env_start_fails_def env_ok_def initConf_def baseConf_def)

text \<open>
  C7 (as the code has it). When the steps up to the start of the setup container have
  succeeded and configuration and flag seeding succeed, \<open>New\<close> closes the setup container and
  then creates the serving container from the shared base configuration, with no port
  bindings; that creation is its last call. It runs no readiness poll, configuration or
  seeding again, and it does not start the serving container. If the close or the creation
  fails, that error is returned; otherwise the instance returned holds exactly the container
  the runtime gave for the base configuration, as created, and it is the instance's \<open>Start\<close>
  that starts this container. \<open>New\<close> succeeds in no other way.
\<close>

theorem New_success_shape:
  "(cookiejar_New E tr = None
      \<and> get_docker_host_ip E (tr @ [CookiejarNew]) = Inr ip
      \<and> temp_dir E (tr @ [CookiejarNew, GetDockerHostIP]) [] ''ctfd'' = Inr dir
      \<and> new_container E (tr @ [CookiejarNew, GetDockerHostIP, TempDir [] ''ctfd''])
           (initConf ip dir) = Inr c
      \<and> cont_start E (tr @ [CookiejarNew, GetDockerHostIP, TempDir [] ''ctfd'',
           NewContainer (initConf ip dir)]) c = None
      \<and> configureInstance E \<lparr>conf = cfg, cont = None, confDir = dir\<rparr>
           (tr @ [CookiejarNew, GetDockerHostIP, TempDir [] ''ctfd'',
                  NewContainer (initConf ip dir), ContStart c]) = (Inr (), t6) \<longrightarrow>
        New E cfg tr =
          (case cont_close E t6 c of
             Some e \<Rightarrow> (Inl (External e), t6 @ [ContClose c])
           | None \<Rightarrow>
               (case new_container E (t6 @ [ContClose c]) (baseConf ip dir) of
                  Inl e \<Rightarrow>
                    (Inl (External e), t6 @ [ContClose c, NewContainer (baseConf ip dir)])
                | Inr c' \<Rightarrow>
                    (Inr \<lparr>conf = cfg, cont = Some c', confDir = dir\<rparr>,
                     t6 @ [ContClose c, NewContainer (baseConf ip dir)]))))
   \<and> (New E cfg tr = (Inr ctf, tr') \<longrightarrow>
        (\<exists>ip dir c c' mid.
            cookiejar_New E tr = None
          \<and> get_docker_host_ip E (tr @ [CookiejarNew]) = Inr ip
          \<and> temp_dir E (tr @ [CookiejarNew, GetDockerHostIP]) [] ''ctfd'' = Inr dir
          \<and> new_container E (tr @ [CookiejarNew, GetDockerHostIP, TempDir [] ''ctfd''])
               (initConf ip dir) = Inr c
          \<and> cont_start E (tr @ [CookiejarNew, GetDockerHostIP, TempDir [] ''ctfd'',
               NewContainer (initConf ip dir)]) c = None
          \<and> configureInstance E \<lparr>conf = cfg, cont = None, confDir = dir\<rparr>
               (tr @ [CookiejarNew, GetDockerHostIP, TempDir [] ''ctfd'',
                      NewContainer (initConf ip dir), ContStart c])
             = (Inr (), tr @ [CookiejarNew, GetDockerHostIP, TempDir [] ''ctfd'',
                              NewContainer (initConf ip dir), ContStart c] @ mid)
          \<and> cont_close E (tr @ [CookiejarNew, GetDockerHostIP, TempDir [] ''ctfd'',
                              NewContainer (initConf ip dir), ContStart c] @ mid) c = None
          \<and> new_container E (tr @ [CookiejarNew, GetDockerHostIP, TempDir [] ''ctfd'',
                              NewContainer (initConf ip dir), ContStart c] @ mid @ [ContClose c])
               (baseConf ip dir) = Inr c'
          \<and> tr' = tr @ [CookiejarNew, GetDockerHostIP, TempDir [] ''ctfd'',
                         NewContainer (initConf ip dir), ContStart c]
                      @ mid @ [ContClose c, NewContainer (baseConf ip dir)]
          \<and> ctf = \<lparr>conf = cfg, cont = Some c', confDir = dir\<rparr>
          \<and> PortBindings (baseConf ip dir) = []
          \<and> Start E ctf tr' =
              (case cont_start E tr' c' of None \<Rightarrow> Inr () | Some e \<Rightarrow> Inl (External e),
               tr' @ [ContStart c'])))"
proof (intro conjI impI)
  assume h: "cookiejar_New E tr = None
      \<and> get_docker_host_ip E (tr @ [CookiejarNew]) = Inr ip
      \<and> temp_dir E (tr @ [CookiejarNew, GetDockerHostIP]) [] ''ctfd'' = Inr dir
      \<and> new_container E (tr @ [CookiejarNew, GetDockerHostIP, TempDir [] ''ctfd''])
           (initConf ip dir) = Inr c
      \<and> cont_start E (tr @ [CookiejarNew, GetDockerHostIP, TempDir [] ''ctfd'',
           NewContainer (initConf ip dir)]) c = None
      \<and> configureInstance E \<lparr>conf = cfg, cont = None, confDir = dir\<rparr>
           (tr @ [CookiejarNew, GetDockerHostIP, TempDir [] ''ctfd'',
                  NewContainer (initConf ip dir), ContStart c]) = (Inr (), t6)"
  then show "New E cfg tr =
          (case cont_close E t6 c of
             Some e \<Rightarrow> (Inl (External e), t6 @ [ContClose c])
           | None \<Rightarrow>
               (case new_container E (t6 @ [ContClose c]) (baseConf ip dir) of
                  Inl e \<Rightarrow>
                    (Inl (External e), t6 @ [ContClose c, NewContainer (baseConf ip dir)])
                | Inr c' \<Rightarrow>
                    (Inr \<lparr>conf = cfg, cont = Some c', confDir = dir\<rparr>,
                     t6 @ [ContClose c, NewContainer (baseConf ip dir)])))"
    by (simp add: New_def andThen_def call_err_def call_val_def split: option.splits sum.splits)
next
  assume assms: "New E cfg tr = (Inr ctf, tr')"
  let ?t1 = "tr @ [CookiejarNew]"
  let ?t2 = "tr @ [CookiejarNew, GetDockerHostIP]"
  let ?t3 = "tr @ [CookiejarNew, GetDockerHostIP, TempDir [] ''ctfd'']"
  from assms have j: "cookiejar_New E tr = None"
    by (cases "cookiejar_New E tr") (simp_all add: New_def andThen_def call_err_def)
  from assms j obtain ip where ip: "get_docker_host_ip E ?t1 = Inr ip"
    by (cases "get_docker_host_ip E ?t1") (simp_all add: New_def andThen_def call_err_def call_val_def)
  from assms j ip obtain dir where dir: "temp_dir E ?t2 [] ''ctfd'' = Inr dir"
    by (cases "temp_dir E ?t2 [] ''ctfd''")
       (simp_all add: New_def andThen_def call_err_def call_val_def)
  let ?t4 = "?t3 @ [NewContainer (initConf ip dir)]"
  from assms j ip dir obtain c where c: "new_container E ?t3 (initConf ip dir) = Inr c"
    by (cases "new_container E ?t3 (initConf ip dir)")
       (simp_all add: New_def andThen_def call_err_def call_val_def)
  let ?t5 = "tr @ [CookiejarNew, GetDockerHostIP, TempDir [] ''ctfd'',
                NewContainer (initConf ip dir), ContStart c]"
  from assms j ip dir c have s: "cont_start E ?t4 c = None"
    by (cases "cont_start E ?t4 c") (simp_all add: New_def andThen_def call_err_def call_val_def)
  let ?ctf0 = "\<lparr>conf = cfg, cont = None, confDir = dir\<rparr>"
  obtain r6 t6 where ci: "configureInstance E ?ctf0 ?t5 = (r6, t6)"
    by (cases "configureInstance E ?ctf0 ?t5")
  from configureInstance_extends[of E ?ctf0 ?t5] ci obtain mid where mid: "t6 = ?t5 @ mid"
    by auto
  from assms j ip dir c s ci have r6: "r6 = Inr ()"
    by (cases r6) (simp_all add: New_def andThen_def call_err_def call_val_def)
  from assms j ip dir c s ci r6 have cl: "cont_close E t6 c = None"
    by (cases "cont_close E t6 c") (simp_all add: New_def andThen_def call_err_def call_val_def)
  from assms j ip dir c s ci r6 cl obtain c'
    where c': "new_container E (t6 @ [ContClose c]) (baseConf ip dir) = Inr c'"
    by (cases "new_container E (t6 @ [ContClose c]) (baseConf ip dir)")
       (simp_all add: New_def andThen_def call_err_def call_val_def)
  from assms j ip dir c s ci r6 cl c'
  have res: "ctf = \<lparr>conf = cfg, cont = Some c', confDir = dir\<rparr>"
    "tr' = t6 @ [ContClose c, NewContainer (baseConf ip dir)]"
    by (simp_all add: New_def andThen_def call_err_def call_val_def)
  show "\<exists>ip dir c c' mid.
            cookiejar_New E tr = None
          \<and> get_docker_host_ip E (tr @ [CookiejarNew]) = Inr ip
          \<and> temp_dir E (tr @ [CookiejarNew, GetDockerHostIP]) [] ''ctfd'' = Inr dir
          \<and> new_container E (tr @ [CookiejarNew, GetDockerHostIP, TempDir [] ''ctfd''])
               (initConf ip dir) = Inr c
          \<and> cont_start E (tr @ [CookiejarNew, GetDockerHostIP, TempDir [] ''ctfd'',
               NewContainer (initConf ip dir)]) c = None
          \<and> configureInstance E \<lparr>conf = cfg, cont = None, confDir = dir\<rparr>
               (tr @ [CookiejarNew, GetDockerHostIP, TempDir [] ''ctfd'',
                      NewContainer (initConf ip dir), ContStart c])
             = (Inr (), tr @ [CookiejarNew, GetDockerHostIP, TempDir [] ''ctfd'',
                              NewContainer (initConf ip dir), ContStart c] @ mid)
          \<and> cont_close E (tr @ [CookiejarNew, GetDockerHostIP, TempDir [] ''ctfd'',
                              NewContainer (initConf ip dir), ContStart c] @ mid) c = None
          \<and> new_container E (tr @ [CookiejarNew, GetDockerHostIP, TempDir [] ''ctfd'',
                              NewContainer (initConf ip dir), ContStart c] @ mid @ [ContClose c])
               (baseConf ip dir) = Inr c'
          \<and> tr' = tr @ [CookiejarNew, GetDockerHostIP, TempDir [] ''ctfd'',
                         NewContainer (initConf ip dir), ContStart c]
                      @ mid @ [ContClose c, NewContainer (baseConf ip dir)]
          \<and> ctf = \<lparr>conf = cfg, cont = Some c', confDir = dir\<rparr>
          \<and> PortBindings (baseConf ip dir) = []
          \<and> Start E ctf tr' =
              (case cont_start E tr' c' of None \<Rightarrow> Inr () | Some e \<Rightarrow> Inl (External e),
               tr' @ [ContStart c'])"
    apply (rule exI[of _ ip])
    apply (rule exI[of _ dir])
    apply (rule exI[of _ c])
    apply (rule exI[of _ c'])
    apply (rule exI[of _ mid])
    using j ip dir c s res mid ci r6 cl c'
    by (simp add: baseConf_def Start_def on_cont_def call_err_def)
qed

theorem New_success_shape_witness:
  "cookiejar_New env_ok [] = None
   \<and> get_docker_host_ip env_ok [CookiejarNew] = Inr ''172.17.0.1''
   \<and> temp_dir env_ok [CookiejarNew, GetDockerHostIP] [] ''ctfd'' = Inr ''/tmp/ctfd042''
   \<and> new_container env_ok [CookiejarNew, GetDockerHostIP, TempDir [] ''ctfd'']
        (initConf ''172.17.0.1'' ''/tmp/ctfd042'') = Inr ''setup''
   \<and> cont_start env_ok [CookiejarNew, GetDockerHostIP, TempDir [] ''ctfd'',
        NewContainer (initConf ''172.17.0.1'' ''/tmp/ctfd042'')] ''setup'' = None
   \<and> configureInstance env_ok \<lparr>conf = cfg_demo, cont = None, confDir = ''/tmp/ctfd042''\<rparr>
        [CookiejarNew, GetDockerHostIP, TempDir [] ''ctfd'',
         NewContainer (initConf ''172.17.0.1'' ''/tmp/ctfd042''), ContStart ''setup'']
       = (Inr (), butlast (butlast trace_demo))
   \<and> cont_close env_ok (butlast (butlast trace_demo)) ''setup'' = None
   \<and> new_container env_ok (butlast (butlast trace_demo) @ [ContClose ''setup''])
        (baseConf ''172.17.0.1'' ''/tmp/ctfd042'') = Inr ''serving''
   \<and> New env_ok cfg_demo [] = (Inr ctf_demo, trace_demo)
   \<and> cont ctf_demo = Some ''serving''
   \<and> Start env_ok ctf_demo trace_demo = (Inr (), trace_demo @ [ContStart ''serving''])"
proof -
  let ?t5 = "[CookiejarNew, GetDockerHostIP, TempDir [] ''ctfd'',
      NewContainer (initConf ''172.17.0.1'' ''/tmp/ctfd042''), ContStart ''setup'']"
  let ?t6 = "butlast (butlast trace_demo)"
  let ?ctf0 = "\<lparr>conf = cfg_demo, cont = None, confDir = ''/tmp/ctfd042''\<rparr>"
  have o: "cookiejar_New env_ok t = None" "get_docker_host_ip env_ok t = Inr ''172.17.0.1''"
    "temp_dir env_ok t a b = Inr ''/tmp/ctfd042''"
    "cont_start env_ok t c = None" "cont_close env_ok t c = None" for t a b c
    by (simp_all add: env_ok_def)
  have n1: "new_container env_ok t (initConf ip dir) = Inr ''setup''" for t ip dir
    by (simp add: env_ok_def initConf_def baseConf_def)
  have n2: "new_container env_ok t (baseConf ip dir) = Inr ''serving''" for t ip dir
    by (simp add: env_ok_def baseConf_def)
  have t6: "?t6 = ?t5 @ [DefaultGet setup_endpoint, ClientGet setup_endpoint,
        ClientDo (setup_request cfg_demo ''abc123''),
        ClientGet chal_endpoint, ClientDo (chal_request ''A'' ''flag{a}'' 100 ''abc123''),
        ClientGet chal_endpoint, ClientDo (chal_request ''B'' ''flag{b}'' 200 ''abc123'')]"
    by (simp add: trace_demo_def)
  have td: "trace_demo = ?t6 @ [ContClose ''setup'',
        NewContainer (baseConf ''172.17.0.1'' ''/tmp/ctfd042'')]"
    by (simp add: trace_demo_def)
  have "conf ?ctf0 = cfg_demo" by simp
  from configureInstance_env_ok[OF this, of ?t5]
  have ci: "configureInstance env_ok ?ctf0 ?t5 = (Inr (), ?t6)" unfolding t6 by simp
  have hyps: "cookiejar_New env_ok [] = None
      \<and> get_docker_host_ip env_ok ([] @ [CookiejarNew]) = Inr ''172.17.0.1''
      \<and> temp_dir env_ok ([] @ [CookiejarNew, GetDockerHostIP]) [] ''ctfd'' = Inr ''/tmp/ctfd042''
      \<and> new_container env_ok ([] @ [CookiejarNew, GetDockerHostIP, TempDir [] ''ctfd''])
           (initConf ''172.17.0.1'' ''/tmp/ctfd042'') = Inr ''setup''
      \<and> cont_start env_ok ([] @ [CookiejarNew, GetDockerHostIP, TempDir [] ''ctfd'',
           NewContainer (initConf ''172.17.0.1'' ''/tmp/ctfd042'')]) ''setup'' = None
      \<and> configureInstance env_ok ?ctf0
           ([] @ [CookiejarNew, GetDockerHostIP, TempDir [] ''ctfd'',
                  NewContainer (initConf ''172.17.0.1'' ''/tmp/ctfd042''), ContStart ''setup''])
          = (Inr (), ?t6)"
    unfolding append_Nil using o n1 ci by (intro conjI)
  note fw = New_success_shape [of env_ok "[]" "''172.17.0.1''" "''/tmp/ctfd042''" "''setup''"
      cfg_demo ?t6, THEN conjunct1, THEN mp, OF hyps]
  have new: "New env_ok cfg_demo [] = (Inr ctf_demo, trace_demo)"
    unfolding fw td[symmetric] by (simp add: o n2 ctf_demo_def)
  have st: "Start env_ok ctf_demo trace_demo = (Inr (), trace_demo @ [ContStart ''serving''])"
    by (simp add: Start_def on_cont_def call_err_def ctf_demo_def o)
  have c: "cont ctf_demo = Some ''serving''" by (simp add: ctf_demo_def)
  show ?thesis using o n1 n2 ci new st c by (intro conjI)
qed

text \<open>
  As the specification states C7, \<open>New\<close> starts the serving container and returns a serving
  instance. In the run where everything succeeds the serving container is created and never
  started.
\<close>

theorem New_leaves_serving_unstarted:
  "fst (New env_ok cfg_demo []) = Inr ctf_demo
   \<and> cont ctf_demo = Some ''serving''
   \<and> last (snd (New env_ok cfg_demo [])) = NewContainer (baseConf ''172.17.0.1'' ''/tmp/ctfd042'')
   \<and> ContStart ''serving'' \<notin> set (snd (New env_ok cfg_demo []))"
  by (simp add: New_env_ok) (simp add: trace_demo_def ctf_demo_def)

end
